theory Spec2Isabelle
  imports Main
begin

section \<open>Python values, errors and dictionaries\<close>

text \<open>
  The module \<^verbatim>\<open>neomodel/core.py\<close> is Python 2. Property values are Python objects; the
  validators only tell text (\<^verbatim>\<open>str\<close>, \<^verbatim>\<open>unicode\<close>) and integers (\<^verbatim>\<open>int\<close>, \<^verbatim>\<open>long\<close>, and
  \<^verbatim>\<open>bool\<close>, which is a subclass of \<^verbatim>\<open>int\<close>) from everything else.
\<close>

datatype pyval = PyStr string | PyInt int | PyBool bool | PyNone

text \<open>
  Every \<^verbatim>\<open>raise\<close> of the module is a value of \<open>error\<close>. The module defines the exception
  classes \<^verbatim>\<open>NoSuchProperty\<close>, \<^verbatim>\<open>PropertyNotIndexed\<close> and \<^verbatim>\<open>NotUnique\<close>; everything else it
  raises is a plain \<^verbatim>\<open>Exception\<close> with a message (\<open>PyException\<close>), or comes from the
  interpreter (\<open>TypeError\<close>, \<open>AttributeError\<close>) or from the store client (\<open>StoreError\<close>).
  The message of \<^verbatim>\<open>NotUnique\<close> is not modelled.
\<close>

datatype error =
    NoSuchProperty string
  | PropertyNotIndexed string
  | NotUnique
  | TypeError
  | AttributeError
  | PyException string
  | StoreError

text \<open>
  A Python \<^verbatim>\<open>dict\<close> is an association list with distinct keys; the order of the list is
  the order in which \<^verbatim>\<open>iteritems\<close> visits it. \<open>dict_set d k v\<close> is \<^verbatim>\<open>d[k] = v\<close>,
  \<open>dict_del d k\<close> is \<^verbatim>\<open>del d[k]\<close> for a key that is present.
\<close>

fun dict_set :: "('k \<times> 'v) list \<Rightarrow> 'k \<Rightarrow> 'v \<Rightarrow> ('k \<times> 'v) list" where
  "dict_set [] k v = [(k, v)]"
| "dict_set ((k', v') # d) k v =
     (if k' = k then (k, v) # d else (k', v') # dict_set d k v)"

definition dict_has :: "('k \<times> 'v) list \<Rightarrow> 'k \<Rightarrow> bool" where
  "dict_has d k = (map_of d k \<noteq> None)"

definition dict_del :: "('k \<times> 'v) list \<Rightarrow> 'k \<Rightarrow> ('k \<times> 'v) list" where
  "dict_del d k = filter (\<lambda>kv. fst kv \<noteq> k) d"

definition startswith_underscore :: "string \<Rightarrow> bool" where
  "startswith_underscore key = (case key of [] \<Rightarrow> False | c # _ \<Rightarrow> c = CHR ''_'')"

section \<open>Property descriptors\<close>

text \<open>
  \<^verbatim>\<open>Property\<close> and its two subclasses. \<^verbatim>\<open>__init__\<close> is inherited unchanged by the
  subclasses; it stores \<^verbatim>\<open>unique_index\<close> and \<^verbatim>\<open>index\<close> and does not store \<^verbatim>\<open>blank\<close>.
\<close>

datatype property_class = Property | StringProperty | IntegerProperty

record property =
  prop_class :: property_class
  unique_index :: bool
  index :: bool

definition Property_init :: "property_class \<Rightarrow> bool \<Rightarrow> bool \<Rightarrow> bool \<Rightarrow> error + property" where
  "Property_init c u i blank =
     (if u \<and> i then Inl (PyException ''unique_index and index are mutually exclusive'')
      else if u \<and> blank then
        Inl (PyException ''uniquely indexed properties cannot also be blank'')
      else Inr \<lparr>prop_class = c, unique_index = u, index = i\<rparr>)"

definition is_indexed :: "property \<Rightarrow> bool" where
  "is_indexed p = (unique_index p \<or> index p)"

text \<open>
  \<^verbatim>\<open>validate\<close> exists on the two subclasses only: on a plain \<^verbatim>\<open>Property\<close> the attribute
  lookup fails.
\<close>

fun validate :: "property \<Rightarrow> pyval \<Rightarrow> error + bool" where
  "validate p v =
     (case prop_class p of
        Property \<Rightarrow> Inl AttributeError
      | StringProperty \<Rightarrow> (case v of PyStr _ \<Rightarrow> Inr True | _ \<Rightarrow> Inl TypeError)
      | IntegerProperty \<Rightarrow>
          (case v of PyInt _ \<Rightarrow> Inr True | PyBool _ \<Rightarrow> Inr True | _ \<Rightarrow> Inl TypeError))"

section \<open>Classes of mapped nodes\<close>

datatype direction = OUTGOING | INCOMING | EITHER

text \<open>
  A \<^verbatim>\<open>RelationshipDefinition\<close> names its target class; the manager built from it holds
  the class itself (see \<open>manager\<close> below). The manager flavour is the default
  \<^verbatim>\<open>RelationshipManager\<close>, the only one the module defines.
\<close>

record reldef =
  rd_relation_type :: string
  rd_target :: string
  rd_direction :: direction

text \<open>
  What a class attribute can be: a property descriptor, a relationship definition, or
  anything else (a method, \<^verbatim>\<open>__module__\<close>, \<^verbatim>\<open>__doc__\<close>, the \<^verbatim>\<open>index\<close> handle that the
  metaclass installs), of which only the truth value matters.
\<close>

datatype class_attr = PropertyAttr property | RelDefAttr reldef | OtherAttr bool

text \<open>
  A subclass of \<^verbatim>\<open>NeoNode\<close>: the identity of the class object (\<open>cid\<close>; two classes are
  the same object exactly when they have the same identity, whatever their names and
  bodies), its \<^verbatim>\<open>__name__\<close>, its own \<^verbatim>\<open>__dict__\<close>, and the attributes that \<^verbatim>\<open>getattr\<close>
  finds on its base classes.
\<close>

record neo_class =
  cid :: nat
  cname :: string
  cdict :: "(string \<times> class_attr) list"
  cinherited :: "(string \<times> class_attr) list"

definition getattr :: "neo_class \<Rightarrow> string \<Rightarrow> class_attr option" where
  "getattr cls name =
     (case map_of (cdict cls) name of
        Some a \<Rightarrow> Some a
      | None \<Rightarrow> map_of (cinherited cls) name)"

definition truthy :: "class_attr \<Rightarrow> bool" where
  "truthy a = (case a of OtherAttr b \<Rightarrow> b | _ \<Rightarrow> True)"

text \<open>
  \<^verbatim>\<open>NeoNode.get_property\<close>: \<^verbatim>\<open>getattr(cls, name)\<close> without a default raises
  \<^verbatim>\<open>AttributeError\<close> for a missing name. The check that follows builds an
  \<^verbatim>\<open>Exception\<close> and drops it (there is no \<^verbatim>\<open>raise\<close>), so whatever \<^verbatim>\<open>getattr\<close> found is
  returned.
\<close>

definition get_property :: "neo_class \<Rightarrow> string \<Rightarrow> error + class_attr" where
  "get_property cls name =
     (case getattr cls name of
        None \<Rightarrow> Inl AttributeError
      | Some node_property \<Rightarrow> Inr node_property)"

text \<open>Attribute access on whatever \<^verbatim>\<open>get_property\<close> returned.\<close>

definition attr_validate :: "class_attr \<Rightarrow> pyval \<Rightarrow> error + bool" where
  "attr_validate a v = (case a of PropertyAttr p \<Rightarrow> validate p v | _ \<Rightarrow> Inl AttributeError)"

definition attr_is_indexed :: "class_attr \<Rightarrow> error + bool" where
  "attr_is_indexed a = (case a of PropertyAttr p \<Rightarrow> Inr (is_indexed p) | _ \<Rightarrow> Inl AttributeError)"

section \<open>Mapped nodes\<close>

text \<open>
  An instance: its class, \<^verbatim>\<open>_node\<close> (the store node's identity, \<open>None\<close> while transient)
  and the entries of \<^verbatim>\<open>__dict__\<close> other than the internal \<^verbatim>\<open>_node\<close>, \<^verbatim>\<open>_db\<close>, \<^verbatim>\<open>_type\<close>,
  \<^verbatim>\<open>_index\<close> and \<^verbatim>\<open>_related\<close>. An entry is a value or a relationship manager.
\<close>

datatype inst_val = PropVal pyval | ManagerVal reldef

record neonode =
  o_class :: neo_class
  o_node :: "nat option"
  o_dict :: "(string \<times> inst_val) list"

definition o_type :: "neonode \<Rightarrow> string" where
  "o_type self = cname (o_class self)"

text \<open>\<^verbatim>\<open>NeoNode._validate_args\<close>, the loop over \<^verbatim>\<open>props.iteritems()\<close>.\<close>

fun validate_args ::
  "neo_class \<Rightarrow> (string \<times> inst_val) list \<Rightarrow> (string \<times> pyval) list
     \<Rightarrow> error + (string \<times> inst_val) list" where
  "validate_args cls d [] = Inr d"
| "validate_args cls d ((key, v) # props) =
     (if dict_has (cdict cls) key then
        (case get_property cls key of
           Inl e \<Rightarrow> Inl e
         | Inr node_property \<Rightarrow>
             (case attr_validate node_property v of
                Inl e \<Rightarrow> Inl e
              | Inr _ \<Rightarrow> validate_args cls (dict_set d key (PropVal v)) props))
      else Inl (NoSuchProperty key))"

text \<open>
  \<^verbatim>\<open>RelationshipInstaller.__init__\<close>: every relationship definition in the class's own
  \<^verbatim>\<open>__dict__\<close> is replaced, on the instance, by a manager.
\<close>

fun setup_relationships ::
  "(string \<times> class_attr) list \<Rightarrow> (string \<times> inst_val) list \<Rightarrow> (string \<times> inst_val) list" where
  "setup_relationships [] d = d"
| "setup_relationships ((key, a) # rest) d =
     (case a of
        RelDefAttr rd \<Rightarrow> setup_relationships rest (dict_set d key (ManagerVal rd))
      | _ \<Rightarrow> setup_relationships rest d)"

text \<open>\<^verbatim>\<open>NeoNode.__init__\<close> with keyword arguments \<open>kwargs\<close>.\<close>

definition NeoNode_init :: "neo_class \<Rightarrow> (string \<times> pyval) list \<Rightarrow> error + neonode" where
  "NeoNode_init cls kwargs =
     (case validate_args cls [] kwargs of
        Inl e \<Rightarrow> Inl e
      | Inr d \<Rightarrow>
          Inr \<lparr>o_class = cls, o_node = None, o_dict = setup_relationships (cdict cls) d\<rparr>)"

text \<open>
  \<^verbatim>\<open>NeoNode.properties\<close>: the entries of \<^verbatim>\<open>__dict__\<close> whose key does not start with an
  underscore and whose value is neither a method nor a relationship manager.
\<close>

fun properties_of :: "(string \<times> inst_val) list \<Rightarrow> (string \<times> pyval) list" where
  "properties_of [] = []"
| "properties_of ((key, PropVal v) # d) =
     (if \<not> startswith_underscore key then (key, v) # properties_of d else properties_of d)"
| "properties_of ((key, ManagerVal rd) # d) = properties_of d"

definition properties :: "neonode \<Rightarrow> (string \<times> pyval) list" where
  "properties self = properties_of (o_dict self)"

section \<open>The store client\<close>

text \<open>
  The graph store behind \<^verbatim>\<open>py2neo\<close> is an external collaborator. It is modelled after
  the interface the specification gives for it: nodes with properties, typed directed
  relationships, and named indexes whose entries map a key and a value to a node. A
  primitive that is handed a node the store does not hold fails with \<open>StoreError\<close>
  and changes nothing.
\<close>

record rel =
  rel_id :: nat
  rel_start :: nat
  rel_type :: string
  rel_end :: nat

type_synonym index_entry = "string \<times> pyval \<times> nat"

record store =
  nodes :: "nat \<Rightarrow> (string \<times> pyval) list option"
  rels :: "rel list"
  indexes :: "string \<Rightarrow> index_entry list"
  next_node :: nat
  next_rel :: nat

definition entry_for :: "string \<Rightarrow> pyval \<Rightarrow> index_entry \<Rightarrow> bool" where
  "entry_for k v e = (fst e = k \<and> fst (snd e) = v)"

text \<open>
  \<^verbatim>\<open>client.create(props, (category, relation_name, 0))\<close>: one new node and one
  relationship from the category node to it.
\<close>

definition store_create ::
  "store \<Rightarrow> (string \<times> pyval) list \<Rightarrow> nat \<Rightarrow> string \<Rightarrow> error + (nat \<times> rel) \<times> store" where
  "store_create s props cat relation_name =
     (if nodes s cat = None then Inl StoreError
      else
        let n = next_node s;
            r = \<lparr>rel_id = next_rel s, rel_start = cat, rel_type = relation_name, rel_end = n\<rparr>
        in Inr ((n, r),
                s\<lparr>nodes := (nodes s)(n \<mapsto> props), rels := rels s @ [r],
                  next_node := Suc n, next_rel := Suc (next_rel s)\<rparr>))"

text \<open>\<^verbatim>\<open>index.get_or_create(key, value, props)\<close> on the index named \<open>iname\<close>.\<close>

definition index_get_or_create ::
  "store \<Rightarrow> string \<Rightarrow> string \<Rightarrow> pyval \<Rightarrow> (string \<times> pyval) list \<Rightarrow> nat \<times> store" where
  "index_get_or_create s iname k v props =
     (case find (entry_for k v) (indexes s iname) of
        Some e \<Rightarrow> (snd (snd e), s)
      | None \<Rightarrow>
          let n = next_node s
          in (n, s\<lparr>nodes := (nodes s)(n \<mapsto> props),
                   indexes := (indexes s)(iname := indexes s iname @ [(k, v, n)]),
                   next_node := Suc n\<rparr>))"

text \<open>\<^verbatim>\<open>node.set_properties(props)\<close> replaces all properties of the node.\<close>

definition set_properties :: "store \<Rightarrow> nat \<Rightarrow> (string \<times> pyval) list \<Rightarrow> error + store" where
  "set_properties s n props =
     (if nodes s n = None then Inl StoreError else Inr (s\<lparr>nodes := (nodes s)(n \<mapsto> props)\<rparr>))"

text \<open>\<^verbatim>\<open>index.remove(entity=node)\<close> removes every entry of the index that points to the node.\<close>

definition index_remove :: "store \<Rightarrow> string \<Rightarrow> nat \<Rightarrow> store" where
  "index_remove s iname n =
     s\<lparr>indexes := (indexes s)(iname := filter (\<lambda>e. snd (snd e) \<noteq> n) (indexes s iname))\<rparr>"

text \<open>\<^verbatim>\<open>node.get_relationships()\<close>: every relationship that starts or ends at the node.\<close>

definition get_relationships :: "store \<Rightarrow> nat \<Rightarrow> error + rel list" where
  "get_relationships s n =
     (if nodes s n = None then Inl StoreError
      else Inr (filter (\<lambda>r. rel_start r = n \<or> rel_end r = n) (rels s)))"

text \<open>\<^verbatim>\<open>client.delete\<close> applied to a list of relationships followed by one node.\<close>

definition store_delete :: "store \<Rightarrow> rel list \<Rightarrow> nat \<Rightarrow> store" where
  "store_delete s to_delete n =
     s\<lparr>rels := filter (\<lambda>r. rel_id r \<notin> set (map rel_id to_delete)) (rels s),
       nodes := (nodes s)(n := None)\<rparr>"

text \<open>\<^verbatim>\<open>relationship.delete()\<close>.\<close>

definition rel_delete :: "store \<Rightarrow> rel \<Rightarrow> store" where
  "rel_delete s r = s\<lparr>rels := filter (\<lambda>r'. rel_id r' \<noteq> rel_id r) (rels s)\<rparr>"

text \<open>
  Whether a relationship links \<open>n\<close> to \<open>other\<close> in the given direction, seen from \<open>n\<close>.
\<close>

fun links :: "nat \<Rightarrow> direction \<Rightarrow> nat \<Rightarrow> rel \<Rightarrow> bool" where
  "links n OUTGOING other r = (rel_start r = n \<and> rel_end r = other)"
| "links n INCOMING other r = (rel_end r = n \<and> rel_start r = other)"
| "links n EITHER other r =
     ((rel_start r = n \<and> rel_end r = other) \<or> (rel_end r = n \<and> rel_start r = other))"

text \<open>The node at the far end of a relationship of \<open>n\<close> in the given direction, if any.\<close>

fun far_end :: "nat \<Rightarrow> direction \<Rightarrow> rel \<Rightarrow> nat list" where
  "far_end n OUTGOING r = (if rel_start r = n then [rel_end r] else [])"
| "far_end n INCOMING r = (if rel_end r = n then [rel_start r] else [])"
| "far_end n EITHER r =
     (if rel_start r = n then [rel_end r] else if rel_end r = n then [rel_start r] else [])"

text \<open>\<^verbatim>\<open>node.get_related_nodes(direction, relation_type)\<close>.\<close>

definition get_related_nodes :: "store \<Rightarrow> nat \<Rightarrow> direction \<Rightarrow> string \<Rightarrow> error + nat list" where
  "get_related_nodes s n d t =
     (if nodes s n = None then Inl StoreError
      else Inr (concat (map (far_end n d) (filter (\<lambda>r. rel_type r = t) (rels s)))))"

text \<open>\<^verbatim>\<open>node.get_relationships_with(other, direction, relation_type)\<close>.\<close>

definition get_relationships_with ::
  "store \<Rightarrow> nat \<Rightarrow> nat \<Rightarrow> direction \<Rightarrow> string \<Rightarrow> error + rel list" where
  "get_relationships_with s n other d t =
     (if nodes s n = None then Inl StoreError
      else Inr (filter (\<lambda>r. rel_type r = t \<and> links n d other r) (rels s)))"


section \<open>The connection adapter\<close>

text \<open>\<^verbatim>\<open>NeoDB\<close>: the client and the cache of category nodes, one per type name.\<close>

record neodb =
  client :: store
  category_cache :: "(string \<times> nat) list"

definition category :: "neodb \<Rightarrow> string \<Rightarrow> nat \<times> neodb" where
  "category db name =
     (case map_of (category_cache db) name of
        Some c \<Rightarrow> (c, db)
      | None \<Rightarrow>
          let (c, s) = index_get_or_create (client db) ''Category'' ''category'' (PyStr name)
                         [(''category'', PyStr name)]
          in (c, db\<lparr>client := s, category_cache := dict_set (category_cache db) name c\<rparr>))"

section \<open>The index batch\<close>

text \<open>
  Modelled from the spec: the class \<^verbatim>\<open>IndexBatch\<close> of the module \<^verbatim>\<open>neomodel/indexbatch.py\<close>,
  which \<^verbatim>\<open>core.py\<close> imports. A batch collects inserts (\<^verbatim>\<open>add\<close>) and conditional inserts
  (\<^verbatim>\<open>add_if_none\<close>, "only if absent") for one index; \<^verbatim>\<open>submit\<close> runs them in order and
  returns one response per request. A conditional insert either becomes the sole entry
  for its key and value (status 201) or reports the conflict (status 200) and leaves the
  prior entry untouched; an unconditional insert always adds its entry (status 201).
\<close>

datatype batch_op = Add string pyval nat | AddIfNone string pyval nat

fun submit_op :: "index_entry list \<Rightarrow> batch_op \<Rightarrow> nat \<times> index_entry list" where
  "submit_op ix (Add k v n) = (201, ix @ [(k, v, n)])"
| "submit_op ix (AddIfNone k v n) =
     (if list_ex (entry_for k v) ix then (200, ix) else (201, ix @ [(k, v, n)]))"

fun submit :: "index_entry list \<Rightarrow> batch_op list \<Rightarrow> nat list \<times> index_entry list" where
  "submit ix [] = ([], ix)"
| "submit ix (b # bs) =
     (let (status, ix1) = submit_op ix b;
          (statuses, ix2) = submit ix1 bs
      in (status # statuses, ix2))"

section \<open>The lifecycle of a mapped node\<close>

text \<open>\<^verbatim>\<open>str.upper\<close> on ASCII text.\<close>

definition upper_char :: "char \<Rightarrow> char" where
  "upper_char c =
     (case map_of (zip ''abcdefghijklmnopqrstuvwxyz'' ''ABCDEFGHIJKLMNOPQRSTUVWXYZ'') c of
        Some u \<Rightarrow> u
      | None \<Rightarrow> c)"

definition upper :: "string \<Rightarrow> string" where
  "upper s = map upper_char s"

text \<open>
  The loop of \<^verbatim>\<open>NeoNode._update_index\<close>, which fills the batch. \<^verbatim>\<open>get_property\<close> may raise,
  and so may reading \<^verbatim>\<open>unique_index\<close> from an attribute that is not a descriptor.
\<close>

fun fill_batch :: "neo_class \<Rightarrow> nat \<Rightarrow> (string \<times> pyval) list \<Rightarrow> error + batch_op list" where
  "fill_batch cls n [] = Inr []"
| "fill_batch cls n ((key, v) # props) =
     (case get_property cls key of
        Inl e \<Rightarrow> Inl e
      | Inr (PropertyAttr node_property) \<Rightarrow>
          (case fill_batch cls n props of
             Inl e \<Rightarrow> Inl e
           | Inr batch \<Rightarrow>
               Inr ((if unique_index node_property then [AddIfNone key v n]
                     else if index node_property then [Add key v n]
                     else []) @ batch))
      | Inr _ \<Rightarrow> Inl AttributeError)"

text \<open>
  \<^verbatim>\<open>NeoNode._update_index\<close> for an object of class \<open>cls\<close> whose \<^verbatim>\<open>_node\<close> is \<open>n\<close> (both
  callers have set it). The index is the one named after the class. The batch is
  submitted before the statuses are looked at, so the store keeps what the batch did
  also when \<^verbatim>\<open>NotUnique\<close> is raised.
\<close>

definition update_index ::
  "neo_class \<Rightarrow> nat \<Rightarrow> (string \<times> pyval) list \<Rightarrow> store \<Rightarrow> (error + unit) \<times> store" where
  "update_index cls n props s =
     (case fill_batch cls n props of
        Inl e \<Rightarrow> (Inl e, s)
      | Inr batch \<Rightarrow>
          let (statuses, ix) = submit (indexes s (cname cls)) batch;
              s1 = s\<lparr>indexes := (indexes s)(cname cls := ix)\<rparr>
          in if 200 \<in> set statuses then (Inl NotUnique, s1) else (Inr (), s1))"

text \<open>\<^verbatim>\<open>NeoNode.delete\<close>. The value returned on success is \<^verbatim>\<open>True\<close>.\<close>

definition NeoNode_delete :: "neonode \<Rightarrow> neodb \<Rightarrow> (error + bool) \<times> neonode \<times> neodb" where
  "NeoNode_delete self db =
     (case o_node self of
        Some n \<Rightarrow>
          (case get_relationships (client db) n of
             Inl e \<Rightarrow> (Inl e, self, db)
           | Inr to_delete \<Rightarrow>
               (Inr True, self\<lparr>o_node := None\<rparr>,
                db\<lparr>client := store_delete (client db) to_delete n\<rparr>))
      | None \<Rightarrow>
          (Inl (PyException ''Node has not been saved so cannot be deleted''), self, db))"

text \<open>
  \<^verbatim>\<open>NeoNode._create\<close>. The category node is looked up while the arguments of
  \<^verbatim>\<open>client.create\<close> are evaluated. The check after the call builds an exception and drops
  it. Any exception of the index update is caught, the object is deleted and the
  exception raised again (unless \<^verbatim>\<open>delete\<close> itself raises).
\<close>

definition NeoNode_create ::
  "neonode \<Rightarrow> (string \<times> pyval) list \<Rightarrow> neodb \<Rightarrow> (error + unit) \<times> neonode \<times> neodb" where
  "NeoNode_create self props db =
     (let relation_name = upper (o_type self);
          (cat, db1) = category db (o_type self)
      in case store_create (client db1) props cat relation_name of
           Inl e \<Rightarrow> (Inl e, self, db1)
         | Inr ((n, r), s2) \<Rightarrow>
             let self1 = self\<lparr>o_node := Some n\<rparr>
             in (case update_index (o_class self1) n props s2 of
                   (Inl e, s3) \<Rightarrow>
                     (case NeoNode_delete self1 (db1\<lparr>client := s3\<rparr>) of
                        (Inl e', self2, db4) \<Rightarrow> (Inl e', self2, db4)
                      | (Inr _, self2, db4) \<Rightarrow> (Inl e, self2, db4))
                 | (Inr _, s3) \<Rightarrow> (Inr (), self1, db1\<lparr>client := s3\<rparr>)))"

text \<open>
  \<^verbatim>\<open>NeoNode.save\<close>. On success the method returns the object itself, which is the second
  component here.
\<close>

definition NeoNode_save :: "neonode \<Rightarrow> neodb \<Rightarrow> (error + unit) \<times> neonode \<times> neodb" where
  "NeoNode_save self db =
     (case o_node self of
        Some n \<Rightarrow>
          (case set_properties (client db) n (properties self) of
             Inl e \<Rightarrow> (Inl e, self, db)
           | Inr s1 \<Rightarrow>
               let s2 = index_remove s1 (o_type self) n;
                   (res, s3) = update_index (o_class self) n (properties self) s2
               in (res, self, db\<lparr>client := s3\<rparr>))
      | None \<Rightarrow> NeoNode_create self (properties self) db)"

section \<open>The relationship manager\<close>

text \<open>
  \<^verbatim>\<open>RelationshipManager\<close>: \<open>related\<close> is the cache, a dictionary from the identity of a
  store node to the object wrapping it.
\<close>

record manager =
  m_direction :: direction
  m_relation_type :: string
  m_node_class :: neo_class
  m_name :: string
  related :: "(nat \<times> neonode) list"
  origin :: neonode

text \<open>The loop of \<^verbatim>\<open>all\<close> that wraps each related node and enters it into the cache.\<close>

fun wrap_related ::
  "neo_class \<Rightarrow> store \<Rightarrow> nat list \<Rightarrow> (nat \<times> neonode) list
     \<Rightarrow> (error + unit) \<times> (nat \<times> neonode) list" where
  "wrap_related cls s [] cache = (Inr (), cache)"
| "wrap_related cls s (n # ns) cache =
     (case nodes s n of
        None \<Rightarrow> (Inl StoreError, cache)
      | Some ps \<Rightarrow>
          (case NeoNode_init cls ps of
             Inl e \<Rightarrow> (Inl e, cache)
           | Inr wrapped_node \<Rightarrow>
               wrap_related cls s ns (dict_set cache n (wrapped_node\<lparr>o_node := Some n\<rparr>))))"

text \<open>
  \<^verbatim>\<open>RelationshipManager.all\<close>. The result is \<open>None\<close> where the method returns without a
  value, and the list of cached objects otherwise.
\<close>

definition RelationshipManager_all ::
  "manager \<Rightarrow> store \<Rightarrow> (error + neonode list option) \<times> manager" where
  "RelationshipManager_all self s =
     (if related self = [] then
        (case o_node (origin self) of
           None \<Rightarrow> (Inl AttributeError, self)
         | Some o_id \<Rightarrow>
             (case get_related_nodes s o_id (m_direction self) (m_relation_type self) of
                Inl e \<Rightarrow> (Inl e, self)
              | Inr related_nodes \<Rightarrow>
                  if related_nodes = [] then (Inr None, self)
                  else
                    (case wrap_related (m_node_class self) s related_nodes (related self) of
                       (Inl e, cache) \<Rightarrow> (Inl e, self\<lparr>related := cache\<rparr>)
                     | (Inr _, cache) \<Rightarrow>
                         (Inr (Some (map snd cache)), self\<lparr>related := cache\<rparr>))))
      else (Inr (Some (map snd (related self))), self))"


text \<open>
  \<^verbatim>\<open>RelationshipManager.unrelate\<close>. Reading \<^verbatim>\<open>obj._node.id\<close> of a transient \<open>obj\<close>, and
  calling a method on the \<^verbatim>\<open>_node\<close> of a transient origin, raise \<^verbatim>\<open>AttributeError\<close>.
  The cache entry is deleted first; whatever happens afterwards, the manager keeps that
  change. The message of the exception, which
  formats the list of relationships, is modelled by its template.
\<close>

definition RelationshipManager_unrelate ::
  "manager \<Rightarrow> neonode \<Rightarrow> store \<Rightarrow> (error + unit) \<times> manager \<times> store" where
  "RelationshipManager_unrelate self obj s =
     (case o_node obj of
        None \<Rightarrow> (Inl AttributeError, self, s)
      | Some n \<Rightarrow>
          let self1 = (if dict_has (related self) n
                       then self\<lparr>related := dict_del (related self) n\<rparr> else self)
          in (case o_node (origin self1) of
                None \<Rightarrow> (Inl AttributeError, self1, s)
              | Some o_id \<Rightarrow>
                  (case get_relationships_with s o_id n (m_direction self1)
                          (m_relation_type self1) of
                     Inl e \<Rightarrow> (Inl e, self1, s)
                   | Inr [] \<Rightarrow> (Inr (), self1, s)
                   | Inr (r # rs) \<Rightarrow>
                       if length (r # rs) > 1 then
                         (Inl (PyException ''Expected single relationship got {0}''), self1, s)
                       else (Inr (), self1, rel_delete s r))))"

section \<open>Searching through the index\<close>

text \<open>
  The loop of \<^verbatim>\<open>NeoIndex.search\<close> over the keyword constraints: \<^verbatim>\<open>NoSuchProperty\<close> is raised
  when \<^verbatim>\<open>get_property\<close> returns something false, \<^verbatim>\<open>PropertyNotIndexed\<close> when the
  descriptor is not indexed, and the value is validated.
\<close>

fun search_check :: "neo_class \<Rightarrow> (string \<times> pyval) list \<Rightarrow> error + unit" where
  "search_check cls [] = Inr ()"
| "search_check cls ((k, v) # kwargs) =
     (case get_property cls k of
        Inl e \<Rightarrow> Inl e
      | Inr p \<Rightarrow>
          if \<not> truthy p then Inl (NoSuchProperty k)
          else
            (case attr_is_indexed p of
               Inl e \<Rightarrow> Inl e
             | Inr indexed \<Rightarrow>
                 if \<not> indexed then Inl (PropertyNotIndexed k)
                 else
                   (case attr_validate p v of
                      Inl e \<Rightarrow> Inl e
                    | Inr _ \<Rightarrow> search_check cls kwargs)))"

text \<open>
  A query expression is a conjunction of equality terms, as the query builder composes
  them with \<^verbatim>\<open>&\<close>; the index answers it with the nodes that have an entry for every term.
\<close>

datatype qexpr = Q string pyval | QAnd qexpr qexpr

fun matches :: "index_entry list \<Rightarrow> nat \<Rightarrow> qexpr \<Rightarrow> bool" where
  "matches ix n (Q k v) = list_ex (\<lambda>e. entry_for k v e \<and> snd (snd e) = n) ix"
| "matches ix n (QAnd x y) = (matches ix n x \<and> matches ix n y)"

definition index_query :: "index_entry list \<Rightarrow> qexpr \<Rightarrow> nat list" where
  "index_query ix q = filter (\<lambda>n. matches ix n q) (remdups (map (\<lambda>e. snd (snd e)) ix))"

text \<open>The loop of \<^verbatim>\<open>search\<close> that wraps each node of the result.\<close>

fun wrap_result :: "neo_class \<Rightarrow> store \<Rightarrow> nat list \<Rightarrow> error + neonode list" where
  "wrap_result cls s [] = Inr []"
| "wrap_result cls s (n # ns) =
     (case nodes s n of
        None \<Rightarrow> Inl StoreError
      | Some ps \<Rightarrow>
          (case NeoNode_init cls ps of
             Inl e \<Rightarrow> Inl e
           | Inr neonode \<Rightarrow>
               (case wrap_result cls s ns of
                  Inl e \<Rightarrow> Inl e
                | Inr found \<Rightarrow> Inr (neonode\<lparr>o_node := Some n\<rparr> # found))))"

text \<open>
  \<^verbatim>\<open>NeoIndex.search(query, **kwargs)\<close> on the index of class \<open>cls\<close>. Without a query the
  constraints are folded with \<^verbatim>\<open>reduce\<close>, which raises \<^verbatim>\<open>TypeError\<close> on an empty list.
\<close>

definition NeoIndex_search ::
  "neo_class \<Rightarrow> store \<Rightarrow> qexpr option \<Rightarrow> (string \<times> pyval) list \<Rightarrow> error + neonode list" where
  "NeoIndex_search cls s query kwargs =
     (case search_check cls kwargs of
        Inl e \<Rightarrow> Inl e
      | Inr _ \<Rightarrow>
          (case (case query of
                   Some q \<Rightarrow> Inr q
                 | None \<Rightarrow>
                     (case map (\<lambda>(k, v). Q k v) kwargs of
                        [] \<Rightarrow> Inl TypeError
                      | q # qs \<Rightarrow> Inr (foldl QAnd q qs))) of
             Inl e \<Rightarrow> Inl e
           | Inr q \<Rightarrow> wrap_result cls s (index_query (indexes s (cname cls)) q)))"



section \<open>Notions used in the statements\<close>

text \<open>
  Every key of \<open>props\<close> names a property descriptor of the class, so that
  \<^verbatim>\<open>_update_index\<close> reaches \<^verbatim>\<open>submit\<close>.
\<close>

definition all_declared :: "neo_class \<Rightarrow> (string \<times> pyval) list \<Rightarrow> bool" where
  "all_declared cls props =
     list_all (\<lambda>kv. case getattr cls (fst kv) of Some (PropertyAttr p) \<Rightarrow> True | _ \<Rightarrow> False) props"

text \<open>The key names a descriptor declared with \<^verbatim>\<open>unique_index\<close>.\<close>

definition unique_key :: "neo_class \<Rightarrow> string \<Rightarrow> bool" where
  "unique_key cls k = (case getattr cls k of Some (PropertyAttr p) \<Rightarrow> unique_index p | _ \<Rightarrow> False)"

text \<open>
  The key names a descriptor declared with \<^verbatim>\<open>index\<close> and without \<^verbatim>\<open>unique_index\<close>: the
  second branch of the loop of \<^verbatim>\<open>_update_index\<close>.
\<close>

definition plain_index_key :: "neo_class \<Rightarrow> string \<Rightarrow> bool" where
  "plain_index_key cls k =
     (case getattr cls k of
        Some (PropertyAttr p) \<Rightarrow> \<not> unique_index p \<and> index p
      | _ \<Rightarrow> False)"

text \<open>The index \<open>ix\<close> holds an entry for key and value that points to a node other than \<open>n\<close>.\<close>

definition indexed_elsewhere :: "index_entry list \<Rightarrow> nat \<Rightarrow> string \<Rightarrow> pyval \<Rightarrow> bool" where
  "indexed_elsewhere ix n k v = list_ex (\<lambda>e. entry_for k v e \<and> snd (snd e) \<noteq> n) ix"

text \<open>
  The index \<open>ix\<close> holds no entry for the key and value of any uniquely indexed
  property of \<open>props\<close>.
\<close>

definition no_conflict :: "neo_class \<Rightarrow> (string \<times> pyval) list \<Rightarrow> index_entry list \<Rightarrow> bool" where
  "no_conflict cls props ix =
     list_all (\<lambda>kv. unique_key cls (fst kv) \<longrightarrow> \<not> list_ex (entry_for (fst kv) (snd kv)) ix) props"

text \<open>The key of a request of the batch.\<close>

fun op_key :: "batch_op \<Rightarrow> string" where
  "op_key (Add k v n) = k"
| "op_key (AddIfNone k v n) = k"

text \<open>
  The state of a store that hands out fresh identities: relationships have identities
  below the next one and end at nodes below the next node, no node exists from the next
  identity on, and the category index and the category cache point to nodes that exist.
\<close>

definition wf_db :: "neodb \<Rightarrow> bool" where
  "wf_db db =
     ((\<forall>r \<in> set (rels (client db)).
         rel_id r < next_rel (client db) \<and> rel_start r < next_node (client db)
         \<and> rel_end r < next_node (client db))
      \<and> (\<forall>n. next_node (client db) \<le> n \<longrightarrow> nodes (client db) n = None)
      \<and> (\<forall>e \<in> set (indexes (client db) ''Category''). nodes (client db) (snd (snd e)) \<noteq> None)
      \<and> (\<forall>nc \<in> set (category_cache db). nodes (client db) (snd nc) \<noteq> None))"

section \<open>A small schema and graph for concrete runs\<close>

definition Person :: neo_class where
  "Person =
     \<lparr>cid = 0, cname = ''Person'',
      cdict =
        [(''name'', PropertyAttr \<lparr>prop_class = StringProperty, unique_index = True, index = False\<rparr>),
         (''age'', PropertyAttr \<lparr>prop_class = IntegerProperty, unique_index = False, index = True\<rparr>),
         (''bio'', PropertyAttr \<lparr>prop_class = StringProperty, unique_index = False, index = False\<rparr>),
         (''_token'', PropertyAttr \<lparr>prop_class = StringProperty, unique_index = False, index = False\<rparr>),
         (''friends'',
            RelDefAttr \<lparr>rd_relation_type = ''FRIEND'', rd_target = ''Person'', rd_direction = OUTGOING\<rparr>),
         (''index'', OtherAttr True),
         (''__module__'', OtherAttr True),
         (''__doc__'', OtherAttr False)],
      cinherited =
        [(''save'', OtherAttr True), (''delete'', OtherAttr True), (''properties'', OtherAttr True)]\<rparr>"


text \<open>An empty store, before any type has been saved.\<close>

definition empty_db :: neodb where
  "empty_db =
     \<lparr>client = \<lparr>nodes = (\<lambda>_. None), rels = [], indexes = (\<lambda>_. []),
                next_node = 0, next_rel = 0\<rparr>,
      category_cache = []\<rparr>"

text \<open>
  A store with the category node of \<open>Person\<close> (node 0) and three persons: Jim (1),
  Bob (2) and Tim (3). Jim has two parallel \<open>FRIEND\<close> edges to Bob and one to Tim.
\<close>

definition graph :: store where
  "graph =
     \<lparr>nodes = (\<lambda>_. None)
         (0 \<mapsto> [(''category'', PyStr ''Person'')],
          1 \<mapsto> [(''name'', PyStr ''Jim'')],
          2 \<mapsto> [(''name'', PyStr ''Bob'')],
          3 \<mapsto> [(''name'', PyStr ''Tim'')]),
      rels =
        [\<lparr>rel_id = 0, rel_start = 0, rel_type = ''PERSON'', rel_end = 1\<rparr>,
         \<lparr>rel_id = 1, rel_start = 0, rel_type = ''PERSON'', rel_end = 2\<rparr>,
         \<lparr>rel_id = 2, rel_start = 0, rel_type = ''PERSON'', rel_end = 3\<rparr>,
         \<lparr>rel_id = 3, rel_start = 1, rel_type = ''FRIEND'', rel_end = 2\<rparr>,
         \<lparr>rel_id = 4, rel_start = 1, rel_type = ''FRIEND'', rel_end = 2\<rparr>,
         \<lparr>rel_id = 5, rel_start = 1, rel_type = ''FRIEND'', rel_end = 3\<rparr>],
      indexes = (\<lambda>_. [])
         (''Category'' := [(''category'', PyStr ''Person'', 0)],
          ''Person'' := [(''name'', PyStr ''Jim'', 1), (''name'', PyStr ''Bob'', 2),
                         (''name'', PyStr ''Tim'', 3)]),
      next_node = 4, next_rel = 6\<rparr>"

definition graph_db :: neodb where
  "graph_db = \<lparr>client = graph, category_cache = [(''Person'', 0)]\<rparr>"

definition person :: "string \<Rightarrow> nat option \<Rightarrow> neonode" where
  "person name n =
     \<lparr>o_class = Person, o_node = n,
      o_dict =
        [(''name'', PropVal (PyStr name)),
         (''friends'',
            ManagerVal \<lparr>rd_relation_type = ''FRIEND'', rd_target = ''Person'',
                        rd_direction = OUTGOING\<rparr>)]\<rparr>"

definition friends :: "neonode \<Rightarrow> (nat \<times> neonode) list \<Rightarrow> manager" where
  "friends self cache =
     \<lparr>m_direction = OUTGOING, m_relation_type = ''FRIEND'', m_node_class = Person,
      m_name = ''friends'', related = cache, origin = self\<rparr>"

text \<open>Two transient persons with the same name, and the store after saving the first.\<close>

definition jim :: neonode where
  "jim = person ''Jim'' None"

definition jim2 :: neonode where
  "jim2 = \<lparr>o_class = Person, o_node = None,
            o_dict = [(''name'', PropVal (PyStr ''Jim'')), (''age'', PropVal (PyInt 30))]\<rparr>"

definition db_after_jim :: neodb where
  "db_after_jim =
     \<lparr>client =
         \<lparr>nodes = (\<lambda>_. None)(0 \<mapsto> [(''category'', PyStr ''Person'')],
                                1 \<mapsto> [(''name'', PyStr ''Jim'')]),
          rels = [\<lparr>rel_id = 0, rel_start = 0, rel_type = ''PERSON'', rel_end = 1\<rparr>],
          indexes = (\<lambda>_. [])(''Category'' := [(''category'', PyStr ''Person'', 0)],
                               ''Person'' := [(''name'', PyStr ''Jim'', 1)]),
          next_node = 2, next_rel = 1\<rparr>,
       category_cache = [(''Person'', 0)]\<rparr>"

text \<open>Jim (node 1) with a new name and an age, not yet saved again.\<close>

definition joe :: neonode where
  "joe = \<lparr>o_class = Person, o_node = Some 1,
           o_dict = [(''name'', PropVal (PyStr ''Joe'')), (''age'', PropVal (PyInt 30))]\<rparr>"

section \<open>Facts about dictionaries\<close>

lemma dict_del_absent: "\<not> dict_has d k \<Longrightarrow> dict_del d k = d"
  by (induction d) (auto simp: dict_has_def dict_del_def split: if_splits)

lemma map_of_dict_del: "map_of (dict_del d k) = (map_of d)(k := None)"
  by (induction d) (auto simp: dict_del_def)

lemma map_of_dict_set: "map_of (dict_set d k v) = (map_of d)(k \<mapsto> v)"
  by (induction d) auto

lemma dict_has_dict_del: "\<not> dict_has (dict_del d k) k"
  by (simp add: dict_has_def map_of_dict_del)



lemma set_dict_set: "set (dict_set d k v) \<subseteq> insert (k, v) (set d)"
  by (induction d) (auto split: if_splits)

lemma find_Some_mem: "find P xs = Some x \<Longrightarrow> x \<in> set xs"
  by (induction xs) (auto split: if_splits)

lemma list_ex_mono_set: "list_ex P xs \<Longrightarrow> set xs \<subseteq> set ys \<Longrightarrow> list_ex P ys"
  by (auto simp: list_ex_iff)


section \<open>Declaring a property\<close>

text \<open>
  Claim C9. Declaring a descriptor with \<^verbatim>\<open>unique_index\<close> and \<^verbatim>\<open>index\<close> both set fails,
  declaring one with \<^verbatim>\<open>unique_index\<close> and \<^verbatim>\<open>blank\<close> both set fails, and a descriptor
  that was declared successfully has neither combination.
\<close>

theorem Property_init_exclusive:
  "Property_init c True True blank =
     Inl (PyException ''unique_index and index are mutually exclusive'')
   \<and> isl (Property_init c True i True)
   \<and> (Property_init c u i blank = Inr p \<longrightarrow>
        unique_index p = u \<and> index p = i \<and> \<not> (u \<and> i) \<and> \<not> (u \<and> blank))"
  by (auto simp: Property_init_def split: if_splits)

theorem Property_init_exclusive_witness:
  "Property_init StringProperty True False False
     = Inr \<lparr>prop_class = StringProperty, unique_index = True, index = False\<rparr>
   \<and> Property_init StringProperty True True False =
       Inl (PyException ''unique_index and index are mutually exclusive'')
   \<and> isl (Property_init StringProperty True False True)
   \<and> \<not> (True \<and> False)"
  using Property_init_exclusive
    [where c = StringProperty and u = True and i = False and blank = False
       and p = "\<lparr>prop_class = StringProperty, unique_index = True, index = False\<rparr>"]
  by (simp add: Property_init_def)

section \<open>Constructing a mapped node\<close>








lemma properties_of_keys: "fst ` set (properties_of d) \<subseteq> fst ` set d"
  by (induction d rule: properties_of.induct) auto

lemma properties_of_distinct:
  "distinct (map fst d) \<Longrightarrow> distinct (map fst (properties_of d))"
proof (induction d rule: properties_of.induct)
  case 1
  then show ?case by simp
next
  case (2 key v d)
  then have "key \<notin> fst ` set (properties_of d)"
    using properties_of_keys [of d] by auto
  with 2 show ?case by simp
next
  case (3 key rd d)
  then show ?case by simp
qed





text \<open>
  A keyword that is in the class's own \<^verbatim>\<open>__dict__\<close> without being a property, such as
  the name of a relationship definition or \<^verbatim>\<open>__doc__\<close>, gets past the membership test of
  \<^verbatim>\<open>_validate_args\<close>; \<^verbatim>\<open>get_property\<close> builds its exception without raising it, and the
  call of \<^verbatim>\<open>validate\<close> on what it returns raises \<^verbatim>\<open>AttributeError\<close>. A property that is
  only inherited is not in the class's own \<^verbatim>\<open>__dict__\<close> and is refused.
\<close>

lemma init_non_property_attribute:
  "NeoNode_init Person [(''friends'', PyStr ''Bob'')] = Inl AttributeError"
  "NeoNode_init Person [(''__doc__'', PyStr ''a person'')] = Inl AttributeError"
  by (simp_all add: NeoNode_init_def Person_def dict_has_def get_property_def getattr_def
      attr_validate_def)

lemma init_inherited_property:
  "NeoNode_init
     \<lparr>cid = 2, cname = ''Employee'', cdict = [(''salary'',
         PropertyAttr \<lparr>prop_class = IntegerProperty, unique_index = False, index = False\<rparr>)],
      cinherited = cdict Person\<rparr>
     [(''name'', PyStr ''Jim'')] = Inl (NoSuchProperty ''name'')"
  by (simp add: NeoNode_init_def dict_has_def)

section \<open>Searching\<close>

lemma search_check_first:
  "search_check cls ((k, v) # kwargs) =
     (case getattr cls k of
        None \<Rightarrow> Inl AttributeError
      | Some p \<Rightarrow>
          if \<not> truthy p then Inl (NoSuchProperty k)
          else (case p of
                  PropertyAttr d \<Rightarrow>
                    if \<not> is_indexed d then Inl (PropertyNotIndexed k)
                    else (case validate d v of Inl e \<Rightarrow> Inl e | Inr _ \<Rightarrow> search_check cls kwargs)
                | _ \<Rightarrow> Inl AttributeError))"
  by (auto simp: get_property_def attr_is_indexed_def attr_validate_def truthy_def
      split: option.splits class_attr.splits sum.splits)

lemma search_not_indexed:
  assumes "getattr cls k = Some (PropertyAttr d)" and "\<not> is_indexed d"
  shows "NeoIndex_search cls s query ((k, v) # kwargs) = Inl (PropertyNotIndexed k)"
  using assms
  by (simp add: NeoIndex_search_def search_check_first truthy_def del: search_check.simps)

lemma search_missing_attribute:
  assumes "getattr cls k = None"
  shows "NeoIndex_search cls s query ((k, v) # kwargs) = Inl AttributeError"
  using assms by (simp add: NeoIndex_search_def search_check_first del: search_check.simps)

text \<open>
  Claim C2. A search constrained on a name that the class does not have, here
  \<^verbatim>\<open>Person.index.search(nickname='Jimmy')\<close>, does not fail with \<^verbatim>\<open>NoSuchProperty\<close>:
  \<^verbatim>\<open>getattr\<close> in \<^verbatim>\<open>get_property\<close> raises \<^verbatim>\<open>AttributeError\<close> before the check that would
  raise \<^verbatim>\<open>NoSuchProperty\<close> is reached.
\<close>

theorem search_undeclared_property:
  "getattr Person ''nickname'' = None
   \<and> NeoIndex_search Person graph None [(''nickname'', PyStr ''Jimmy'')] = Inl AttributeError"
  by (simp add: NeoIndex_search_def get_property_def getattr_def Person_def)

section \<open>The relationship manager: all, relate, unrelate\<close>

text \<open>
  Claim C3. When the cache of a relationship manager is empty and the store reports no
  node connected to the origin through the relation type and direction of the
  definition, \<^verbatim>\<open>all()\<close> returns no value (Python's \<^verbatim>\<open>None\<close>, an empty result) and
  the cache stays empty.
\<close>

theorem all_without_related_nodes:
  assumes "related self = []"
    and "o_node (origin self) = Some o_id"
    and "get_related_nodes s o_id (m_direction self) (m_relation_type self) = Inr []"
  shows "RelationshipManager_all self s = (Inr None, self)
         \<and> related (snd (RelationshipManager_all self s)) = []"
  using assms by (simp add: RelationshipManager_all_def)

theorem all_without_related_nodes_witness:
  "related (friends (person ''Tim'' (Some 3)) []) = []
   \<and> get_related_nodes graph 3 OUTGOING ''FRIEND'' = Inr []
   \<and> RelationshipManager_all (friends (person ''Tim'' (Some 3)) []) graph =
       (Inr None, friends (person ''Tim'' (Some 3)) [])"
  using all_without_related_nodes [of "friends (person ''Tim'' (Some 3)) []" 3 graph]
  by (simp add: friends_def person_def graph_def get_related_nodes_def)





lemma unrelate_unfold:
  assumes "o_node obj = Some n" and "o_node (origin self) = Some o_id"
    and "get_relationships_with s o_id n (m_direction self) (m_relation_type self) = Inr rs"
  shows "RelationshipManager_unrelate self obj s =
     (case rs of
        [] \<Rightarrow> (Inr (), self\<lparr>related := dict_del (related self) n\<rparr>, s)
      | r # rs' \<Rightarrow>
          if rs' \<noteq> [] then
            (Inl (PyException ''Expected single relationship got {0}''),
             self\<lparr>related := dict_del (related self) n\<rparr>, s)
          else (Inr (), self\<lparr>related := dict_del (related self) n\<rparr>, rel_delete s r))"
  using assms
  by (cases "dict_has (related self) n")
     (auto simp: RelationshipManager_unrelate_def Let_def dict_del_absent split: list.splits)

text \<open>
  Claim C8, as amended. For a persisted \<open>obj\<close> and a persisted origin whose node is in
  the store, \<^verbatim>\<open>unrelate(obj)\<close> removes the entry of \<open>obj\<close> from the cache if there is one;
  it leaves the store alone when the store has no edge of the declared type and
  direction between origin and \<open>obj\<close>, fails with the exception the specification calls
  \<^verbatim>\<open>MultipleRelationships\<close> ("Expected single relationship got ...") when there is more
  than one, and deletes the edge when there is exactly one.
\<close>

theorem unrelate_cases:
  assumes "o_node obj = Some n" and "o_node (origin self) = Some o_id"
    and "get_relationships_with s o_id n (m_direction self) (m_relation_type self) = Inr rs"
  shows "map_of (dict_del (related self) n) = (map_of (related self))(n := None)
         \<and> (rs = [] \<longrightarrow>
              RelationshipManager_unrelate self obj s =
                (Inr (), self\<lparr>related := dict_del (related self) n\<rparr>, s))
         \<and> (length rs > 1 \<longrightarrow>
              RelationshipManager_unrelate self obj s =
                (Inl (PyException ''Expected single relationship got {0}''),
                 self\<lparr>related := dict_del (related self) n\<rparr>, s))
         \<and> (\<forall>r. rs = [r] \<longrightarrow>
              RelationshipManager_unrelate self obj s =
                (Inr (), self\<lparr>related := dict_del (related self) n\<rparr>, rel_delete s r)
              \<and> r \<notin> set (rels (rel_delete s r)))"
proof -
  have "rs = [] \<longrightarrow> RelationshipManager_unrelate self obj s =
          (Inr (), self\<lparr>related := dict_del (related self) n\<rparr>, s)"
    using unrelate_unfold [OF assms] by simp
  moreover have "length rs > 1 \<longrightarrow>
                RelationshipManager_unrelate self obj s =
                  (Inl (PyException ''Expected single relationship got {0}''),
                   self\<lparr>related := dict_del (related self) n\<rparr>, s)"
    using unrelate_unfold [OF assms] by (cases rs) auto
  moreover have "\<forall>r. rs = [r] \<longrightarrow>
                RelationshipManager_unrelate self obj s =
                  (Inr (), self\<lparr>related := dict_del (related self) n\<rparr>, rel_delete s r)
                \<and> r \<notin> set (rels (rel_delete s r))"
    using unrelate_unfold [OF assms] by (auto simp: rel_delete_def)
  ultimately show ?thesis by (simp add: map_of_dict_del)
qed

theorem unrelate_cases_witness:
  "get_relationships_with graph 1 3 OUTGOING ''FRIEND'' =
     Inr [\<lparr>rel_id = 5, rel_start = 1, rel_type = ''FRIEND'', rel_end = 3\<rparr>]
   \<and> RelationshipManager_unrelate
        (friends (person ''Jim'' (Some 1)) [(3, person ''Tim'' (Some 3))])
        (person ''Tim'' (Some 3)) graph =
     (Inr (), friends (person ''Jim'' (Some 1)) [],
      rel_delete graph \<lparr>rel_id = 5, rel_start = 1, rel_type = ''FRIEND'', rel_end = 3\<rparr>)
   \<and> get_relationships_with graph 3 1 OUTGOING ''FRIEND'' = Inr []
   \<and> RelationshipManager_unrelate (friends (person ''Tim'' (Some 3)) [])
        (person ''Jim'' (Some 1)) graph =
     (Inr (), friends (person ''Tim'' (Some 3)) [], graph)"
  using unrelate_cases [of "person ''Tim'' (Some 3)" 3
          "friends (person ''Jim'' (Some 1)) [(3, person ''Tim'' (Some 3))]" 1 graph
          "[\<lparr>rel_id = 5, rel_start = 1, rel_type = ''FRIEND'', rel_end = 3\<rparr>]"]
        unrelate_cases [of "person ''Jim'' (Some 1)" 1
          "friends (person ''Tim'' (Some 3)) []" 3 graph "[]"]
  by (simp add: friends_def person_def graph_def get_relationships_with_def dict_del_def)

text \<open>
  Claim C8 as stated fails twice. For a transient \<open>obj\<close> the store has no edge between the
  origin and \<open>obj\<close>, yet the call is not a no-op but raises \<^verbatim>\<open>AttributeError\<close> when it reads
  \<^verbatim>\<open>obj._node.id\<close>. For a transient origin the cache entry of \<open>obj\<close> is removed and the
  lookup of the edges then raises \<^verbatim>\<open>AttributeError\<close>.
\<close>

theorem unrelate_transient_obj:
  "o_node (person ''Ann'' None) = None
   \<and> RelationshipManager_unrelate (friends (person ''Jim'' (Some 1)) [])
        (person ''Ann'' None) graph =
      (Inl AttributeError, friends (person ''Jim'' (Some 1)) [], graph)
   \<and> RelationshipManager_unrelate
        (friends (person ''Ann'' None) [(2, person ''Bob'' (Some 2))])
        (person ''Bob'' (Some 2)) graph =
      (Inl AttributeError, friends (person ''Ann'' None) [], graph)"
  by (simp add: RelationshipManager_unrelate_def friends_def person_def dict_has_def
      dict_del_def)

text \<open>
  Claim C10. When \<open>obj\<close> is in the cache and the store holds more than one matching
  edge, \<^verbatim>\<open>unrelate(obj)\<close> fails, and the manager it leaves behind no longer has the
  cache entry of \<open>obj\<close>: the cache has changed although the operation failed.
\<close>

theorem unrelate_failure_mutates_cache:
  assumes "o_node obj = Some n" and "dict_has (related self) n"
    and "o_node (origin self) = Some o_id"
    and "get_relationships_with s o_id n (m_direction self) (m_relation_type self) = Inr rs"
    and "length rs > 1"
  shows "RelationshipManager_unrelate self obj s =
            (Inl (PyException ''Expected single relationship got {0}''),
             self\<lparr>related := dict_del (related self) n\<rparr>, s)
         \<and> \<not> dict_has (dict_del (related self) n) n
         \<and> dict_del (related self) n \<noteq> related self"
proof -
  have "RelationshipManager_unrelate self obj s =
            (Inl (PyException ''Expected single relationship got {0}''),
             self\<lparr>related := dict_del (related self) n\<rparr>, s)"
    using unrelate_unfold [OF assms(1,3,4)] assms(5) by (cases rs) auto
  moreover have "\<not> dict_has (dict_del (related self) n) n"
    by (simp add: dict_has_dict_del)
  moreover from this assms(2) have "dict_del (related self) n \<noteq> related self"
    by auto
  ultimately show ?thesis by blast
qed

theorem unrelate_failure_mutates_cache_witness:
  "dict_has [(2, person ''Bob'' (Some 2))] 2
   \<and> get_relationships_with graph 1 2 OUTGOING ''FRIEND'' =
       Inr [\<lparr>rel_id = 3, rel_start = 1, rel_type = ''FRIEND'', rel_end = 2\<rparr>,
            \<lparr>rel_id = 4, rel_start = 1, rel_type = ''FRIEND'', rel_end = 2\<rparr>]
   \<and> RelationshipManager_unrelate
        (friends (person ''Jim'' (Some 1)) [(2, person ''Bob'' (Some 2))])
        (person ''Bob'' (Some 2)) graph =
     (Inl (PyException ''Expected single relationship got {0}''),
      friends (person ''Jim'' (Some 1)) [], graph)"
  using unrelate_failure_mutates_cache [of "person ''Bob'' (Some 2)" 2
          "friends (person ''Jim'' (Some 1)) [(2, person ''Bob'' (Some 2))]" 1 graph
          "[\<lparr>rel_id = 3, rel_start = 1, rel_type = ''FRIEND'', rel_end = 2\<rparr>,
            \<lparr>rel_id = 4, rel_start = 1, rel_type = ''FRIEND'', rel_end = 2\<rparr>]"]
  by (simp add: friends_def person_def graph_def get_relationships_with_def dict_del_def
      dict_has_def)

section \<open>Deleting\<close>

text \<open>
  Claim C6. \<^verbatim>\<open>delete()\<close> on a transient object fails with the exception the
  specification calls \<^verbatim>\<open>NodeNotPersisted\<close> (a plain \<^verbatim>\<open>Exception\<close>, "Node has not been
  saved so cannot be deleted"). On a persisted object whose node is in the store it
  deletes the node and every relationship that starts or ends at it, clears \<^verbatim>\<open>_node\<close>
  and returns \<^verbatim>\<open>True\<close>; a second \<^verbatim>\<open>delete()\<close> on the same object fails in the same way.
\<close>

theorem delete_lifecycle:
  "(o_node self = None \<longrightarrow>
      NeoNode_delete self db =
        (Inl (PyException ''Node has not been saved so cannot be deleted''), self, db))
   \<and> (o_node self = Some n \<and> nodes (client db) n \<noteq> None \<longrightarrow>
        (\<exists>self' db'.
           NeoNode_delete self db = (Inr True, self', db')
           \<and> o_node self' = None
           \<and> nodes (client db') = (nodes (client db))(n := None)
           \<and> set (rels (client db')) \<subseteq> set (rels (client db))
           \<and> (\<forall>r \<in> set (rels (client db')). rel_start r \<noteq> n \<and> rel_end r \<noteq> n)
           \<and> fst (NeoNode_delete self' db') =
               Inl (PyException ''Node has not been saved so cannot be deleted'')))"
  by (auto simp: NeoNode_delete_def get_relationships_def store_delete_def)

theorem delete_lifecycle_witness:
  "fst (NeoNode_delete (person ''Ann'' None) graph_db) =
      Inl (PyException ''Node has not been saved so cannot be deleted'')
   \<and> fst (NeoNode_delete (person ''Bob'' (Some 2)) graph_db) = Inr True
   \<and> rels (client (snd (snd (NeoNode_delete (person ''Bob'' (Some 2)) graph_db)))) =
        [\<lparr>rel_id = 0, rel_start = 0, rel_type = ''PERSON'', rel_end = 1\<rparr>,
         \<lparr>rel_id = 2, rel_start = 0, rel_type = ''PERSON'', rel_end = 3\<rparr>,
         \<lparr>rel_id = 5, rel_start = 1, rel_type = ''FRIEND'', rel_end = 3\<rparr>]
   \<and> nodes (client (snd (snd (NeoNode_delete (person ''Bob'' (Some 2)) graph_db)))) 2 = None"
  using delete_lifecycle [of "person ''Ann'' None" graph_db 2]
        delete_lifecycle [of "person ''Bob'' (Some 2)" graph_db 2]
  by (simp add: NeoNode_delete_def person_def graph_db_def graph_def get_relationships_def
      store_delete_def)

section \<open>The index batch and the index update\<close>

lemma submit_Cons:
  "fst (submit ix (b # bs)) = fst (submit_op ix b) # fst (submit (snd (submit_op ix b)) bs)"
  "snd (submit ix (b # bs)) = snd (submit (snd (submit_op ix b)) bs)"
  by (simp_all add: case_prod_beta)

lemma submit_op_subset: "set ix \<subseteq> set (snd (submit_op ix b))"
  by (cases b) auto

lemma submit_subset: "set ix \<subseteq> set (snd (submit ix batch))"
proof (induction batch arbitrary: ix)
  case Nil
  then show ?case by simp
next
  case (Cons b bs)
  have "set ix \<subseteq> set (snd (submit_op ix b))" by (rule submit_op_subset)
  also have "\<dots> \<subseteq> set (snd (submit (snd (submit_op ix b)) bs))" by (rule Cons.IH)
  finally show ?case by (simp only: submit_Cons)
qed

lemma submit_keeps_entry:
  "list_ex (entry_for k v) ix \<Longrightarrow> list_ex (entry_for k v) (snd (submit ix batch))"
  using list_ex_mono_set submit_subset by blast

lemma submit_conflict:
  "AddIfNone k v n \<in> set batch \<Longrightarrow> list_ex (entry_for k v) ix
     \<Longrightarrow> 200 \<in> set (fst (submit ix batch))"
proof (induction batch arbitrary: ix)
  case Nil
  then show ?case by simp
next
  case (Cons b bs)
  show ?case
  proof (cases "b = AddIfNone k v n")
    case True
    with Cons.prems(2) have "fst (submit_op ix b) = 200" by simp
    then show ?thesis by (simp only: submit_Cons) simp
  next
    case False
    with Cons.prems(1) have mem: "AddIfNone k v n \<in> set bs" by simp
    have "list_ex (entry_for k v) (snd (submit_op ix b))"
      using Cons.prems(2) list_ex_mono_set submit_op_subset by blast
    with mem have "200 \<in> set (fst (submit (snd (submit_op ix b)) bs))"
      by (rule Cons.IH)
    then show ?thesis by (simp only: submit_Cons) simp
  qed
qed

lemma submit_op_other_key:
  "op_key b \<noteq> k \<Longrightarrow>
   list_ex (entry_for k v) (snd (submit_op ix b)) = list_ex (entry_for k v) ix"
  by (cases b) (auto simp: entry_for_def list_ex_iff)

lemma submit_no_conflict:
  "distinct (map op_key batch)
   \<Longrightarrow> (\<forall>k v n. AddIfNone k v n \<in> set batch \<longrightarrow> \<not> list_ex (entry_for k v) ix)
   \<Longrightarrow> 200 \<notin> set (fst (submit ix batch))"
proof (induction batch arbitrary: ix)
  case Nil
  then show ?case by simp
next
  case (Cons b bs)
  have first: "fst (submit_op ix b) \<noteq> 200"
  proof (cases b)
    case (Add k v n)
    then show ?thesis by simp
  next
    case (AddIfNone k v n)
    with Cons.prems(2) have "\<not> list_ex (entry_for k v) ix" by simp
    with AddIfNone show ?thesis by simp
  qed
  have "\<forall>k v n. AddIfNone k v n \<in> set bs
          \<longrightarrow> \<not> list_ex (entry_for k v) (snd (submit_op ix b))"
  proof (intro allI impI)
    fix k v n
    assume mem: "AddIfNone k v n \<in> set bs"
    then have "op_key (AddIfNone k v n) \<in> set (map op_key bs)" by force
    with Cons.prems(1) have "op_key b \<noteq> k" by auto
    moreover from mem Cons.prems(2) have "\<not> list_ex (entry_for k v) ix" by simp
    ultimately show "\<not> list_ex (entry_for k v) (snd (submit_op ix b))"
      by (simp add: submit_op_other_key)
  qed
  moreover from Cons.prems(1) have "distinct (map op_key bs)" by simp
  ultimately have "200 \<notin> set (fst (submit (snd (submit_op ix b)) bs))"
    using Cons.IH by blast
  with first show ?case by (simp only: submit_Cons) simp
qed

lemma submit_op_enters: "list_ex (entry_for k v) (snd (submit_op ix (AddIfNone k v n)))"
  by (simp add: entry_for_def)

lemma submit_enters:
  "AddIfNone k v n \<in> set batch \<Longrightarrow> list_ex (entry_for k v) (snd (submit ix batch))"
proof (induction batch arbitrary: ix)
  case Nil
  then show ?case by simp
next
  case (Cons b bs)
  show ?case
  proof (cases "b = AddIfNone k v n")
    case True
    have "list_ex (entry_for k v) (snd (submit_op ix (AddIfNone k v n)))"
      by (rule submit_op_enters)
    then have "list_ex (entry_for k v) (snd (submit (snd (submit_op ix (AddIfNone k v n))) bs))"
      by (rule submit_keeps_entry)
    with True show ?thesis by (simp only: submit_Cons)
  next
    case False
    with Cons.prems have "AddIfNone k v n \<in> set bs" by simp
    then have "list_ex (entry_for k v) (snd (submit (snd (submit_op ix b)) bs))"
      by (rule Cons.IH)
    then show ?thesis by (simp only: submit_Cons)
  qed
qed

lemma submit_other_node:
  "\<forall>b \<in> set batch. (case b of Add k v m \<Rightarrow> m = n | AddIfNone k v m \<Rightarrow> m = n)
   \<Longrightarrow> e \<in> set (snd (submit ix batch)) \<Longrightarrow> e \<in> set ix \<or>
       (snd (snd e) = n \<and> (\<exists>b \<in> set batch. b = Add (fst e) (fst (snd e)) n
                                \<or> b = AddIfNone (fst e) (fst (snd e)) n))"
proof (induction batch arbitrary: ix)
  case Nil
  then show ?case by simp
next
  case (Cons b bs)
  from Cons.prems(2) have "e \<in> set (snd (submit (snd (submit_op ix b)) bs))"
    by (simp only: submit_Cons)
  moreover from Cons.prems(1) have "\<forall>b \<in> set bs. (case b of Add k v m \<Rightarrow> m = n | AddIfNone k v m \<Rightarrow> m = n)"
    by simp
  ultimately have "e \<in> set (snd (submit_op ix b)) \<or>
       (snd (snd e) = n \<and> (\<exists>b \<in> set bs. b = Add (fst e) (fst (snd e)) n
                                \<or> b = AddIfNone (fst e) (fst (snd e)) n))"
    using Cons.IH by blast
  moreover have "e \<in> set (snd (submit_op ix b)) \<Longrightarrow> e \<in> set ix \<or>
      (snd (snd e) = n \<and> (b = Add (fst e) (fst (snd e)) n \<or> b = AddIfNone (fst e) (fst (snd e)) n))"
    using Cons.prems(1) by (cases b) (auto split: if_splits)
  ultimately show ?case by auto
qed

lemma fill_batch_Cons:
  "getattr cls k = Some (PropertyAttr p) \<Longrightarrow>
   fill_batch cls n ((k, v) # props) =
     (case fill_batch cls n props of
        Inl e \<Rightarrow> Inl e
      | Inr batch \<Rightarrow>
          Inr ((if unique_index p then [AddIfNone k v n]
                else if index p then [Add k v n] else []) @ batch))"
  by (simp add: get_property_def)

lemma all_declared_Cons:
  "all_declared cls ((k, v) # props) =
     ((\<exists>p. getattr cls k = Some (PropertyAttr p)) \<and> all_declared cls props)"
  by (auto simp: all_declared_def split: option.splits class_attr.splits)

lemma fill_batch_spec:
  "all_declared cls props \<Longrightarrow>
   \<exists>batch. fill_batch cls n props = Inr batch
     \<and> (\<forall>k v. (k, v) \<in> set props \<and> unique_key cls k \<longrightarrow> AddIfNone k v n \<in> set batch)
     \<and> (\<forall>k v m. AddIfNone k v m \<in> set batch \<longrightarrow> (k, v) \<in> set props \<and> unique_key cls k \<and> m = n)
     \<and> (\<forall>k v m. Add k v m \<in> set batch \<longrightarrow> (k, v) \<in> set props \<and> m = n)
     \<and> set (map op_key batch) \<subseteq> set (map fst props)
     \<and> (distinct (map fst props) \<longrightarrow> distinct (map op_key batch))"
proof (induction props)
  case Nil
  then show ?case by simp
next
  case (Cons a props)
  obtain k v where a: "a = (k, v)" by (cases a)
  from Cons.prems a obtain p where p: "getattr cls k = Some (PropertyAttr p)"
    and rest: "all_declared cls props"
    by (auto simp: all_declared_Cons)
  from Cons.IH [OF rest] obtain batch where b:
    "fill_batch cls n props = Inr batch"
    "\<forall>k v. (k, v) \<in> set props \<and> unique_key cls k \<longrightarrow> AddIfNone k v n \<in> set batch"
    "\<forall>k v m. AddIfNone k v m \<in> set batch \<longrightarrow> (k, v) \<in> set props \<and> unique_key cls k \<and> m = n"
    "\<forall>k v m. Add k v m \<in> set batch \<longrightarrow> (k, v) \<in> set props \<and> m = n"
    "set (map op_key batch) \<subseteq> set (map fst props)"
    "distinct (map fst props) \<longrightarrow> distinct (map op_key batch)"
    by (elim exE conjE)
  let ?new = "(if unique_index p then [AddIfNone k v n]
                else if index p then [Add k v n] else [])"
  have uk: "unique_key cls k = unique_index p"
    using p by (simp add: unique_key_def)
  have f: "fill_batch cls n (a # props) = Inr (?new @ batch)"
    unfolding a using fill_batch_Cons [OF p] b(1) by simp
  have c1: "\<forall>k' v'. (k', v') \<in> set (a # props) \<and> unique_key cls k' \<longrightarrow>
              AddIfNone k' v' n \<in> set (?new @ batch)"
    using b(2) a uk by auto
  have c2: "\<forall>k' v' m. AddIfNone k' v' m \<in> set (?new @ batch) \<longrightarrow>
              (k', v') \<in> set (a # props) \<and> unique_key cls k' \<and> m = n"
    using b(3) a uk by (auto split: if_splits)
  have c3: "\<forall>k' v' m. Add k' v' m \<in> set (?new @ batch) \<longrightarrow> (k', v') \<in> set (a # props) \<and> m = n"
    using b(4) a by (auto split: if_splits)
  have c4: "set (map op_key (?new @ batch)) \<subseteq> set (map fst (a # props))"
    using b(5) a by auto
  have c5: "distinct (map fst (a # props)) \<longrightarrow> distinct (map op_key (?new @ batch))"
    using b(5) b(6) a by auto
  from f c1 c2 c3 c4 c5 show ?case
    by (intro exI [of _ "?new @ batch"] conjI)
qed

lemma fill_batch_not_property:
  assumes "\<forall>p. getattr cls k \<noteq> Some (PropertyAttr p)"
  shows "isl (fill_batch cls n ((k, v) # props))"
proof (cases "getattr cls k")
  case None
  then show ?thesis by (simp add: get_property_def)
next
  case (Some attr)
  with assms show ?thesis by (cases attr) (simp_all add: get_property_def)
qed

lemma fill_batch_declared: "fill_batch cls n props = Inr batch \<Longrightarrow> all_declared cls props"
proof (induction props arbitrary: batch)
  case Nil
  then show ?case by (simp add: all_declared_def)
next
  case (Cons a props)
  obtain k v where a: "a = (k, v)" by (cases a)
  have "\<exists>p. getattr cls k = Some (PropertyAttr p)"
  proof (rule ccontr)
    assume "\<not> (\<exists>p. getattr cls k = Some (PropertyAttr p))"
    then have "isl (fill_batch cls n ((k, v) # props))"
      using fill_batch_not_property [of cls k n v props] by blast
    with Cons.prems a show False by (simp del: fill_batch.simps)
  qed
  then obtain p where p: "getattr cls k = Some (PropertyAttr p)" ..
  have "\<exists>batch'. fill_batch cls n props = Inr batch'"
  proof (cases "fill_batch cls n props")
    case (Inl e)
    with Cons.prems a show ?thesis
      by (simp add: fill_batch_Cons [OF p] del: fill_batch.simps)
  next
    case (Inr batch')
    then show ?thesis by simp
  qed
  then obtain batch' where "fill_batch cls n props = Inr batch'" ..
  then have "all_declared cls props" by (rule Cons.IH)
  with p a show ?case by (simp add: all_declared_Cons)
qed

lemma update_index_frame:
  assumes "update_index cls n props s = (res, s')"
  shows "nodes s' = nodes s \<and> rels s' = rels s \<and> next_node s' = next_node s
         \<and> next_rel s' = next_rel s
         \<and> (\<forall>i. i \<noteq> cname cls \<longrightarrow> indexes s' i = indexes s i)"
  using assms
  by (auto simp: update_index_def Let_def case_prod_beta split: sum.splits if_splits)

lemma update_index_result:
  assumes "fill_batch cls n props = Inr batch"
  shows "update_index cls n props s =
           (if 200 \<in> set (fst (submit (indexes s (cname cls)) batch)) then Inl NotUnique
            else Inr (),
            s\<lparr>indexes := (indexes s)(cname cls := snd (submit (indexes s (cname cls)) batch))\<rparr>)"
  using assms by (simp add: update_index_def Let_def case_prod_beta)

lemma update_index_entries:
  assumes "update_index cls n props s = (res, s')"
    and "e \<in> set (indexes s' (cname cls))"
  shows "e \<in> set (indexes s (cname cls))
         \<or> (snd (snd e) = n \<and> (fst e, fst (snd e)) \<in> set props)"
proof (cases "fill_batch cls n props")
  case (Inl err)
  with assms show ?thesis by (simp add: update_index_def)
next
  case (Inr batch)
  then have "all_declared cls props" by (rule fill_batch_declared)
  from fill_batch_spec [OF this, of n] obtain batch' where
    fb: "fill_batch cls n props = Inr batch'"
    and b1': "\<forall>k v m. AddIfNone k v m \<in> set batch' \<longrightarrow>
                (k, v) \<in> set props \<and> unique_key cls k \<and> m = n"
    and b2': "\<forall>k v m. Add k v m \<in> set batch' \<longrightarrow> (k, v) \<in> set props \<and> m = n"
    by (elim exE conjE)
  from fb Inr have eq: "batch' = batch" by simp
  have b1: "AddIfNone k v m \<in> set batch \<Longrightarrow> (k, v) \<in> set props \<and> m = n" for k v m
    using b1' eq by simp
  have b2: "Add k v m \<in> set batch \<Longrightarrow> (k, v) \<in> set props \<and> m = n" for k v m
    using b2' eq by simp
  have nodes_n: "\<forall>b \<in> set batch. (case b of Add k v m \<Rightarrow> m = n | AddIfNone k v m \<Rightarrow> m = n)"
  proof
    fix b
    assume mem: "b \<in> set batch"
    show "case b of Add k v m \<Rightarrow> m = n | AddIfNone k v m \<Rightarrow> m = n"
    proof (cases b)
      case (Add k v m)
      with mem b2 [of k v m] show ?thesis by simp
    next
      case (AddIfNone k v m)
      with mem b1 [of k v m] show ?thesis by simp
    qed
  qed
  from assms(1) have "s' = s\<lparr>indexes := (indexes s)
                          (cname cls := snd (submit (indexes s (cname cls)) batch))\<rparr>"
    by (simp add: update_index_result [OF Inr])
  then have s': "indexes s' (cname cls) = snd (submit (indexes s (cname cls)) batch)"
    by simp
  with assms(2) have "e \<in> set (snd (submit (indexes s (cname cls)) batch))" by simp
  from submit_other_node [OF nodes_n this]
  consider "e \<in> set (indexes s (cname cls))"
    | b where "snd (snd e) = n" "b \<in> set batch"
        "b = Add (fst e) (fst (snd e)) n \<or> b = AddIfNone (fst e) (fst (snd e)) n"
    by blast
  then show ?thesis
  proof cases
    case 1
    then show ?thesis by simp
  next
    case 2
    from 2(2,3) have "(fst e, fst (snd e)) \<in> set props"
      using b1 [of "fst e" "fst (snd e)" n] b2 [of "fst e" "fst (snd e)" n] by (elim disjE) simp_all
    with 2(1) show ?thesis by simp
  qed
qed

lemma update_index_conflict:
  assumes "all_declared cls props" and "(k, v) \<in> set props" and "unique_key cls k"
    and "list_ex (entry_for k v) (indexes s (cname cls))"
  shows "fst (update_index cls n props s) = Inl NotUnique"
proof -
  from fill_batch_spec [OF assms(1), of n] obtain batch where
    b: "fill_batch cls n props = Inr batch"
    "\<forall>k v. (k, v) \<in> set props \<and> unique_key cls k \<longrightarrow> AddIfNone k v n \<in> set batch"
    by (elim exE conjE)
  from b(2) assms(2,3) have "AddIfNone k v n \<in> set batch" by simp
  from submit_conflict [OF this assms(4)] b(1) show ?thesis
    by (simp add: update_index_result)
qed

lemma update_index_ok:
  assumes "all_declared cls props" and "distinct (map fst props)"
    and "no_conflict cls props (indexes s (cname cls))"
  shows "fst (update_index cls n props s) = Inr ()
         \<and> (\<forall>k v. (k, v) \<in> set props \<and> unique_key cls k \<longrightarrow>
               list_ex (entry_for k v) (indexes (snd (update_index cls n props s)) (cname cls)))"
proof -
  from fill_batch_spec [OF assms(1), of n] obtain batch where
    b: "fill_batch cls n props = Inr batch"
    "\<forall>k v. (k, v) \<in> set props \<and> unique_key cls k \<longrightarrow> AddIfNone k v n \<in> set batch"
    "\<forall>k v m. AddIfNone k v m \<in> set batch \<longrightarrow> (k, v) \<in> set props \<and> unique_key cls k \<and> m = n"
    "distinct (map fst props) \<longrightarrow> distinct (map op_key batch)"
    by (elim exE conjE)
  have free: "\<forall>k v m. AddIfNone k v m \<in> set batch \<longrightarrow>
                \<not> list_ex (entry_for k v) (indexes s (cname cls))"
  proof (intro allI impI)
    fix k v m
    assume "AddIfNone k v m \<in> set batch"
    with b(3) have "(k, v) \<in> set props" "unique_key cls k" by auto
    with assms(3) show "\<not> list_ex (entry_for k v) (indexes s (cname cls))"
      by (auto simp: no_conflict_def list_all_iff)
  qed
  from b(4) assms(2) have "distinct (map op_key batch)" by simp
  from submit_no_conflict [OF this free]
  have ok: "fst (update_index cls n props s) = Inr ()"
    using b(1) by (simp add: update_index_result)
  have "list_ex (entry_for k v) (indexes (snd (update_index cls n props s)) (cname cls))"
    if "(k, v) \<in> set props \<and> unique_key cls k" for k v
  proof -
    from that b(2) have "AddIfNone k v n \<in> set batch" by simp
    then have "list_ex (entry_for k v) (snd (submit (indexes s (cname cls)) batch))"
      by (rule submit_enters)
    with b(1) show ?thesis by (simp add: update_index_result)
  qed
  with ok show ?thesis by simp
qed

lemma submit_member:
  "distinct (map op_key batch) \<Longrightarrow>
   (k, v, m) \<in> set (snd (submit ix batch)) \<longleftrightarrow>
     (k, v, m) \<in> set ix \<or> Add k v m \<in> set batch
     \<or> (AddIfNone k v m \<in> set batch \<and> \<not> list_ex (entry_for k v) ix)"
proof (induction batch arbitrary: ix)
  case Nil
  then show ?case by simp
next
  case (Cons b bs)
  from Cons.prems have d: "distinct (map op_key bs)" and nk: "op_key b \<notin> op_key ` set bs"
    by simp_all
  let ?ix1 = "snd (submit_op ix b)"
  have ih: "(k, v, m) \<in> set (snd (submit ?ix1 bs)) \<longleftrightarrow>
     (k, v, m) \<in> set ?ix1 \<or> Add k v m \<in> set bs
     \<or> (AddIfNone k v m \<in> set bs \<and> \<not> list_ex (entry_for k v) ?ix1)"
    using Cons.IH [OF d] .
  have other: "AddIfNone k v m \<in> set bs \<Longrightarrow>
      list_ex (entry_for k v) ?ix1 = list_ex (entry_for k v) ix"
  proof -
    assume "AddIfNone k v m \<in> set bs"
    then have "op_key (AddIfNone k v m) \<in> op_key ` set bs" by (rule imageI)
    with nk have "op_key b \<noteq> k" by auto
    then show ?thesis by (rule submit_op_other_key)
  qed
  have first: "(k, v, m) \<in> set ?ix1 \<longleftrightarrow>
      (k, v, m) \<in> set ix \<or> b = Add k v m
      \<or> (b = AddIfNone k v m \<and> \<not> list_ex (entry_for k v) ix)"
    by (cases b) auto
  show ?case
    unfolding submit_Cons ih first using other by auto
qed

lemma submit_200_iff:
  assumes "distinct (map op_key batch)"
  shows "200 \<in> set (fst (submit ix batch)) \<longleftrightarrow>
           (\<exists>k v m. AddIfNone k v m \<in> set batch \<and> list_ex (entry_for k v) ix)"
proof
  assume "200 \<in> set (fst (submit ix batch))"
  then show "\<exists>k v m. AddIfNone k v m \<in> set batch \<and> list_ex (entry_for k v) ix"
    using submit_no_conflict [OF assms, of ix] by blast
next
  assume "\<exists>k v m. AddIfNone k v m \<in> set batch \<and> list_ex (entry_for k v) ix"
  then show "200 \<in> set (fst (submit ix batch))"
    using submit_conflict by blast
qed

lemma unique_or_plain:
  "getattr cls k = Some (PropertyAttr p) \<Longrightarrow>
   unique_key cls k = unique_index p \<and> plain_index_key cls k = (\<not> unique_index p \<and> index p)"
  by (simp add: unique_key_def plain_index_key_def)

lemma fill_batch_adds:
  "all_declared cls props \<Longrightarrow> fill_batch cls n props = Inr batch \<Longrightarrow>
   Add k v m \<in> set batch \<longleftrightarrow> (k, v) \<in> set props \<and> plain_index_key cls k \<and> m = n"
proof (induction props arbitrary: batch)
  case Nil
  then show ?case by simp
next
  case (Cons a props)
  obtain k' v' where a: "a = (k', v')" by (cases a)
  from Cons.prems(1) a obtain p where p: "getattr cls k' = Some (PropertyAttr p)"
    and rest: "all_declared cls props"
    by (auto simp: all_declared_Cons)
  from fill_batch_spec [OF rest, of n] obtain batch' where b': "fill_batch cls n props = Inr batch'"
    by blast
  have ih: "Add k v m \<in> set batch' \<longleftrightarrow> (k, v) \<in> set props \<and> plain_index_key cls k \<and> m = n"
    using Cons.IH [OF rest b'] .
  have batch: "batch = (if unique_index p then [AddIfNone k' v' n]
                else if index p then [Add k' v' n] else []) @ batch'"
    using Cons.prems(2) b' unfolding a fill_batch_Cons [OF p] by simp
  show ?case
    unfolding batch a using ih unique_or_plain [OF p] by auto
qed

lemma update_index_exact:
  assumes decl: "all_declared cls props" and dist: "distinct (map fst props)"
    and u: "update_index cls n props s = (res, s')"
  shows "res = (if \<exists>kv \<in> set props. unique_key cls (fst kv)
                     \<and> list_ex (entry_for (fst kv) (snd kv)) (indexes s (cname cls))
                then Inl NotUnique else Inr ())"
    and "(k, v, m) \<in> set (indexes s' (cname cls)) \<longleftrightarrow>
           (k, v, m) \<in> set (indexes s (cname cls))
           \<or> (m = n \<and> (k, v) \<in> set props
               \<and> (plain_index_key cls k
                   \<or> (unique_key cls k \<and> \<not> list_ex (entry_for k v) (indexes s (cname cls)))))"
proof -
  from fill_batch_spec [OF decl, of n] obtain batch where
    b: "fill_batch cls n props = Inr batch"
    and b1: "\<forall>k v. (k, v) \<in> set props \<and> unique_key cls k \<longrightarrow> AddIfNone k v n \<in> set batch"
    and b2: "\<forall>k v m. AddIfNone k v m \<in> set batch \<longrightarrow>
               (k, v) \<in> set props \<and> unique_key cls k \<and> m = n"
    and b5: "distinct (map fst props) \<longrightarrow> distinct (map op_key batch)"
    by (elim exE conjE)
  from b5 dist have db: "distinct (map op_key batch)" by simp
  have adds: "Add k v m \<in> set batch \<longleftrightarrow> (k, v) \<in> set props \<and> plain_index_key cls k \<and> m = n"
    for k v m
    using fill_batch_adds [OF decl b] .
  have conds: "AddIfNone k v m \<in> set batch \<longleftrightarrow> (k, v) \<in> set props \<and> unique_key cls k \<and> m = n"
    for k v m
    using b1 b2 by blast
  let ?ix = "indexes s (cname cls)"
  from u have res: "res = (if 200 \<in> set (fst (submit ?ix batch)) then Inl NotUnique else Inr ())"
    and s': "s' = s\<lparr>indexes := (indexes s)(cname cls := snd (submit ?ix batch))\<rparr>"
    by (simp_all add: update_index_result [OF b])
  have "200 \<in> set (fst (submit ?ix batch)) \<longleftrightarrow>
          (\<exists>kv \<in> set props. unique_key cls (fst kv) \<and> list_ex (entry_for (fst kv) (snd kv)) ?ix)"
    unfolding submit_200_iff [OF db] conds by force
  with res show "res = (if \<exists>kv \<in> set props. unique_key cls (fst kv)
                     \<and> list_ex (entry_for (fst kv) (snd kv)) (indexes s (cname cls))
                then Inl NotUnique else Inr ())"
    by simp
  have eq: "indexes s' (cname cls) = snd (submit ?ix batch)" using s' by simp
  have "(k, v, m) \<in> set (snd (submit ?ix batch)) \<longleftrightarrow>
           (k, v, m) \<in> set ?ix
           \<or> (m = n \<and> (k, v) \<in> set props
               \<and> (plain_index_key cls k
                   \<or> (unique_key cls k \<and> \<not> list_ex (entry_for k v) ?ix)))"
    using submit_member [OF db, of k v m ?ix] adds [of k v m] conds [of k v m] by blast
  then show "(k, v, m) \<in> set (indexes s' (cname cls)) \<longleftrightarrow>
           (k, v, m) \<in> set (indexes s (cname cls))
           \<or> (m = n \<and> (k, v) \<in> set props
               \<and> (plain_index_key cls k
                   \<or> (unique_key cls k \<and> \<not> list_ex (entry_for k v) (indexes s (cname cls)))))"
    by (simp only: eq)
qed

lemma list_ex_removed:
  "list_ex (entry_for k v) (filter (\<lambda>e. snd (snd e) \<noteq> n) ix) = indexed_elsewhere ix n k v"
  by (induction ix) (auto simp: indexed_elsewhere_def)

section \<open>Saving a persisted node\<close>

text \<open>
  Claim C4. \<^verbatim>\<open>save()\<close> on a persisted object whose node is in the store overwrites the
  properties of the node, removes every entry of the type's index that points to the
  node, and runs the index update again, with no rollback. Whatever the update returns,
  the node keeps the new properties and the only entries of the index that point to it
  are entries for current properties. When the properties are descriptors of the class,
  the outcome is fixed exactly: the save fails with \<^verbatim>\<open>NotUnique\<close> if and only if a
  uniquely indexed value is indexed for another node, and succeeds otherwise; in both
  cases the entries of other nodes are kept, the old entries of this node are gone, and
  this node has an entry for each property with a plain index and for each uniquely
  indexed property whose value is not indexed for another node.
\<close>

theorem save_persisted_no_rollback:
  assumes "o_node self = Some n" and "nodes (client db) n \<noteq> None"
  shows "\<exists>res s'.
           NeoNode_save self db = (res, self, db\<lparr>client := s'\<rparr>)
           \<and> nodes s' = (nodes (client db))(n \<mapsto> properties self)
           \<and> rels s' = rels (client db)
           \<and> (\<forall>e \<in> set (indexes s' (o_type self)).
                  snd (snd e) = n \<longrightarrow> (fst e, fst (snd e)) \<in> set (properties self))
           \<and> (all_declared (o_class self) (properties self)
                \<and> distinct (map fst (properties self)) \<longrightarrow>
                res = (if \<exists>kv \<in> set (properties self). unique_key (o_class self) (fst kv)
                            \<and> indexed_elsewhere (indexes (client db) (o_type self)) n
                                  (fst kv) (snd kv)
                       then Inl NotUnique else Inr ())
                \<and> (\<forall>k v m. (k, v, m) \<in> set (indexes s' (o_type self)) \<longleftrightarrow>
                      (m \<noteq> n \<and> (k, v, m) \<in> set (indexes (client db) (o_type self)))
                      \<or> (m = n \<and> (k, v) \<in> set (properties self)
                          \<and> (plain_index_key (o_class self) k
                              \<or> (unique_key (o_class self) k
                                  \<and> \<not> indexed_elsewhere (indexes (client db) (o_type self))
                                         n k v)))))"
proof -
  let ?s1 = "(client db)\<lparr>nodes := (nodes (client db))(n \<mapsto> properties self)\<rparr>"
  let ?s2 = "index_remove ?s1 (o_type self) n"
  obtain res s' where u: "update_index (o_class self) n (properties self) ?s2 = (res, s')"
    by (cases "update_index (o_class self) n (properties self) ?s2")
  from assms(2) obtain ps where ps: "nodes (client db) n = Some ps" by auto
  have sv: "NeoNode_save self db = (res, self, db\<lparr>client := s'\<rparr>)"
    using assms(1) ps u by (simp add: NeoNode_save_def set_properties_def)
  from update_index_frame [OF u]
  have fr: "nodes s' = nodes ?s2" "rels s' = rels ?s2" by simp_all
  have n': "nodes s' = (nodes (client db))(n \<mapsto> properties self)"
    using fr(1) by (simp add: index_remove_def)
  have r': "rels s' = rels (client db)"
    using fr(2) by (simp add: index_remove_def)
  have t: "o_type self = cname (o_class self)" by (simp add: o_type_def)
  have ix2: "indexes ?s2 (cname (o_class self)) =
               filter (\<lambda>e. snd (snd e) \<noteq> n) (indexes (client db) (cname (o_class self)))"
    by (simp add: index_remove_def t)
  have en: "\<forall>e \<in> set (indexes s' (o_type self)).
              snd (snd e) = n \<longrightarrow> (fst e, fst (snd e)) \<in> set (properties self)"
  proof (intro ballI impI)
    fix e
    assume e: "e \<in> set (indexes s' (o_type self))" and en: "snd (snd e) = n"
    from e have "e \<in> set (indexes s' (cname (o_class self)))" by (simp add: t)
    from update_index_entries [OF u this]
    have "e \<in> set (indexes ?s2 (cname (o_class self)))
          \<or> (snd (snd e) = n \<and> (fst e, fst (snd e)) \<in> set (properties self))" .
    with en ix2 show "(fst e, fst (snd e)) \<in> set (properties self)" by auto
  qed
  have ex: "res = (if \<exists>kv \<in> set (properties self). unique_key (o_class self) (fst kv)
                            \<and> indexed_elsewhere (indexes (client db) (o_type self)) n
                                  (fst kv) (snd kv)
                       then Inl NotUnique else Inr ())
            \<and> (\<forall>k v m. (k, v, m) \<in> set (indexes s' (o_type self)) \<longleftrightarrow>
                      (m \<noteq> n \<and> (k, v, m) \<in> set (indexes (client db) (o_type self)))
                      \<or> (m = n \<and> (k, v) \<in> set (properties self)
                          \<and> (plain_index_key (o_class self) k
                              \<or> (unique_key (o_class self) k
                                  \<and> \<not> indexed_elsewhere (indexes (client db) (o_type self))
                                         n k v))))"
    if h: "all_declared (o_class self) (properties self)
           \<and> distinct (map fst (properties self))"
  proof -
    from h have decl: "all_declared (o_class self) (properties self)"
      and dist: "distinct (map fst (properties self))" by simp_all
    note x = update_index_exact [OF decl dist u, unfolded ix2 list_ex_removed]
    have a: "res = (if \<exists>kv \<in> set (properties self). unique_key (o_class self) (fst kv)
                            \<and> indexed_elsewhere (indexes (client db) (o_type self)) n
                                  (fst kv) (snd kv)
                       then Inl NotUnique else Inr ())"
      using x(1) by (simp add: t)
    have b: "(k, v, m) \<in> set (indexes s' (o_type self)) \<longleftrightarrow>
                      (m \<noteq> n \<and> (k, v, m) \<in> set (indexes (client db) (o_type self)))
                      \<or> (m = n \<and> (k, v) \<in> set (properties self)
                          \<and> (plain_index_key (o_class self) k
                              \<or> (unique_key (o_class self) k
                                  \<and> \<not> indexed_elsewhere (indexes (client db) (o_type self))
                                         n k v)))" for k v m
      using x(2) [of k v m] by (auto simp: t)
    from a b show ?thesis by blast
  qed
  from sv n' r' en ex show ?thesis by blast
qed

theorem save_persisted_no_rollback_witness:
  "o_node (person ''Bob'' (Some 1)) = Some 1 \<and> nodes (client graph_db) 1 \<noteq> None
   \<and> nodes graph 1 = Some [(''name'', PyStr ''Jim'')]
   \<and> indexes graph ''Person'' =
        [(''name'', PyStr ''Jim'', 1), (''name'', PyStr ''Bob'', 2), (''name'', PyStr ''Tim'', 3)]
   \<and> fst (NeoNode_save (person ''Bob'' (Some 1)) graph_db) = Inl NotUnique
   \<and> nodes (client (snd (snd (NeoNode_save (person ''Bob'' (Some 1)) graph_db)))) 1
        = Some [(''name'', PyStr ''Bob'')]
   \<and> indexes (client (snd (snd (NeoNode_save (person ''Bob'' (Some 1)) graph_db)))) ''Person''
        = [(''name'', PyStr ''Bob'', 2), (''name'', PyStr ''Tim'', 3)]
   \<and> fst (NeoNode_save joe graph_db) = Inr ()
   \<and> nodes (client (snd (snd (NeoNode_save joe graph_db)))) 1
        = Some [(''name'', PyStr ''Joe''), (''age'', PyInt 30)]
   \<and> indexes (client (snd (snd (NeoNode_save joe graph_db)))) ''Person''
        = [(''name'', PyStr ''Bob'', 2), (''name'', PyStr ''Tim'', 3),
           (''name'', PyStr ''Joe'', 1), (''age'', PyInt 30, 1)]"
  using save_persisted_no_rollback [of "person ''Bob'' (Some 1)" 1 graph_db]
        save_persisted_no_rollback [of joe 1 graph_db]
  by (simp add: NeoNode_save_def set_properties_def index_remove_def update_index_def
      get_property_def getattr_def Person_def person_def joe_def graph_db_def graph_def
      properties_def startswith_underscore_def o_type_def entry_for_def Let_def)

section \<open>Saving two nodes with the same unique value\<close>

lemma wf_db_node_bound: "wf_db db \<Longrightarrow> nodes (client db) c \<noteq> None \<Longrightarrow> c < next_node (client db)"
  by (auto simp: wf_db_def not_le [symmetric])

lemma category_cached:
  "map_of (category_cache db) t = Some c \<Longrightarrow> category db t = (c, db)"
  by (simp add: category_def)

lemma category_spec:
  assumes "wf_db db"
  shows "\<exists>c db1. category db t = (c, db1) \<and> wf_db db1 \<and> nodes (client db1) c \<noteq> None
           \<and> map_of (category_cache db1) t = Some c
           \<and> (\<forall>i. i \<noteq> ''Category'' \<longrightarrow> indexes (client db1) i = indexes (client db) i)"
proof (cases "map_of (category_cache db) t")
  case (Some c)
  then have "(t, c) \<in> set (category_cache db)" by (rule map_of_SomeD)
  with assms have "nodes (client db) c \<noteq> None" by (auto simp: wf_db_def)
  with Some assms show ?thesis by (simp add: category_def)
next
  case None
  show ?thesis
  proof (cases "find (entry_for ''category'' (PyStr t)) (indexes (client db) ''Category'')")
    case (Some e)
    then have "e \<in> set (indexes (client db) ''Category'')" by (rule find_Some_mem)
    with assms have ex: "nodes (client db) (snd (snd e)) \<noteq> None" by (simp add: wf_db_def)
    let ?db1 = "db\<lparr>client := client db,
                   category_cache := dict_set (category_cache db) t (snd (snd e))\<rparr>"
    have cat: "category db t = (snd (snd e), ?db1)"
      using None Some by (simp add: category_def index_get_or_create_def)
    have "wf_db ?db1"
      using assms ex set_dict_set [of "category_cache db" t "snd (snd e)"]
      by (auto simp: wf_db_def)
    with cat ex show ?thesis by (simp add: map_of_dict_set)
  next
    case fnone: None
    let ?n = "next_node (client db)"
    let ?s = "(client db)\<lparr>nodes := (nodes (client db))(?n \<mapsto> [(''category'', PyStr t)]),
                 indexes := (indexes (client db))
                   (''Category'' := indexes (client db) ''Category'' @ [(''category'', PyStr t, ?n)]),
                 next_node := Suc ?n\<rparr>"
    let ?db1 = "db\<lparr>client := ?s, category_cache := dict_set (category_cache db) t ?n\<rparr>"
    have cat: "category db t = (?n, ?db1)"
      using None fnone by (simp add: category_def index_get_or_create_def Let_def)
    have w1: "\<forall>r \<in> set (rels ?s). rel_id r < next_rel ?s \<and> rel_start r < next_node ?s
                \<and> rel_end r < next_node ?s"
      using assms by (auto simp: wf_db_def less_Suc_eq)
    have w2: "\<forall>n. next_node ?s \<le> n \<longrightarrow> nodes ?s n = None"
      using assms by (auto simp: wf_db_def)
    have w3: "\<forall>e \<in> set (indexes ?s ''Category''). nodes ?s (snd (snd e)) \<noteq> None"
      using assms by (auto simp: wf_db_def)
    have w4: "\<forall>nc \<in> set (dict_set (category_cache db) t ?n). nodes ?s (snd nc) \<noteq> None"
      using assms set_dict_set [of "category_cache db" t ?n] by (auto simp: wf_db_def)
    from w1 w2 w3 w4 have "wf_db ?db1" by (simp add: wf_db_def)
    with cat show ?thesis by (simp add: map_of_dict_set)
  qed
qed

lemma save_transient_ok:
  assumes wf: "wf_db db" and tr: "o_node a = None"
    and nc: "cname (o_class a) \<noteq> ''Category''"
    and decl: "all_declared (o_class a) (properties a)"
    and dist: "distinct (map fst (properties a))"
    and free: "no_conflict (o_class a) (properties a) (indexes (client db) (cname (o_class a)))"
  shows "\<exists>n db1. NeoNode_save a db = (Inr (), a\<lparr>o_node := Some n\<rparr>, db1) \<and> wf_db db1
           \<and> map_of (category_cache db1) (o_type a) \<noteq> None
           \<and> (\<forall>k v. (k, v) \<in> set (properties a) \<and> unique_key (o_class a) k \<longrightarrow>
                 list_ex (entry_for k v) (indexes (client db1) (cname (o_class a))))"
proof -
  from category_spec [OF wf, of "o_type a"] obtain c dbc where
    cat: "category db (o_type a) = (c, dbc)" and wfc: "wf_db dbc"
    and ex: "nodes (client dbc) c \<noteq> None"
    and cache: "map_of (category_cache dbc) (o_type a) = Some c"
    and ixs: "\<forall>i. i \<noteq> ''Category'' \<longrightarrow> indexes (client dbc) i = indexes (client db) i"
    by (elim exE conjE)
  let ?n = "next_node (client dbc)"
  let ?r = "\<lparr>rel_id = next_rel (client dbc), rel_start = c, rel_type = upper (o_type a),
             rel_end = ?n\<rparr>"
  let ?s2 = "(client dbc)\<lparr>nodes := (nodes (client dbc))(?n \<mapsto> properties a),
               rels := rels (client dbc) @ [?r], next_node := Suc ?n,
               next_rel := Suc (next_rel (client dbc))\<rparr>"
  from ex obtain cp where cp: "nodes (client dbc) c = Some cp" by auto
  have sc: "store_create (client dbc) (properties a) c (upper (o_type a)) = Inr ((?n, ?r), ?s2)"
    using cp by (simp add: store_create_def Let_def)
  have ix2: "indexes ?s2 (cname (o_class a)) = indexes (client db) (cname (o_class a))"
    using ixs nc by simp
  from free ix2 have free2: "no_conflict (o_class a) (properties a) (indexes ?s2 (cname (o_class a)))"
    by simp
  from update_index_ok [OF decl dist free2, of ?n]
  have ok: "fst (update_index (o_class a) ?n (properties a) ?s2) = Inr ()"
    and post: "\<forall>k v. (k, v) \<in> set (properties a) \<and> unique_key (o_class a) k \<longrightarrow>
       list_ex (entry_for k v)
         (indexes (snd (update_index (o_class a) ?n (properties a) ?s2)) (cname (o_class a)))"
    by simp_all
  obtain s3 where u: "update_index (o_class a) ?n (properties a) ?s2 = (Inr (), s3)"
    using ok by (cases "update_index (o_class a) ?n (properties a) ?s2") simp
  have sv: "NeoNode_save a db = (Inr (), a\<lparr>o_node := Some ?n\<rparr>, dbc\<lparr>client := s3\<rparr>)"
    using tr cat sc u by (simp add: NeoNode_save_def NeoNode_create_def Let_def)
  from update_index_frame [OF u]
  have fr: "nodes s3 = nodes ?s2" "rels s3 = rels ?s2" "next_node s3 = next_node ?s2"
    "next_rel s3 = next_rel ?s2" "\<forall>i. i \<noteq> cname (o_class a) \<longrightarrow> indexes s3 i = indexes ?s2 i"
    by simp_all
  have cb: "c < ?n" using wfc ex by (rule wf_db_node_bound)
  have w1: "\<forall>r \<in> set (rels s3). rel_id r < next_rel s3 \<and> rel_start r < next_node s3
              \<and> rel_end r < next_node s3"
    using wfc cb by (auto simp: fr wf_db_def less_Suc_eq)
  have w2: "\<forall>m. next_node s3 \<le> m \<longrightarrow> nodes s3 m = None"
    using wfc by (auto simp: fr wf_db_def)
  have "indexes s3 ''Category'' = indexes (client dbc) ''Category''"
    using fr(5) nc by simp
  then have w3: "\<forall>e \<in> set (indexes s3 ''Category''). nodes s3 (snd (snd e)) \<noteq> None"
    using wfc by (auto simp: fr wf_db_def)
  have w4: "\<forall>nc \<in> set (category_cache dbc). nodes s3 (snd nc) \<noteq> None"
    using wfc by (auto simp: fr wf_db_def)
  from w1 w2 w3 w4 have wf3: "wf_db (dbc\<lparr>client := s3\<rparr>)" by (simp add: wf_db_def)
  have p3: "\<forall>k v. (k, v) \<in> set (properties a) \<and> unique_key (o_class a) k \<longrightarrow>
                 list_ex (entry_for k v) (indexes (client (dbc\<lparr>client := s3\<rparr>)) (cname (o_class a)))"
    using post u by simp
  have c3: "map_of (category_cache (dbc\<lparr>client := s3\<rparr>)) (o_type a) \<noteq> None"
    using cache by simp
  from sv wf3 c3 p3 show ?thesis by (intro exI [of _ ?n] exI [of _ "dbc\<lparr>client := s3\<rparr>"] conjI)
qed

lemma save_transient_conflict:
  assumes wf: "wf_db db" and tr: "o_node b = None"
    and cache: "map_of (category_cache db) (o_type b) = Some c"
    and decl: "all_declared (o_class b) (properties b)"
    and kv: "(k, v) \<in> set (properties b)" "unique_key (o_class b) k"
    and ex: "list_ex (entry_for k v) (indexes (client db) (cname (o_class b)))"
  shows "\<exists>db2. NeoNode_save b db = (Inl NotUnique, b, db2)
           \<and> nodes (client db2) = nodes (client db) \<and> rels (client db2) = rels (client db)"
proof -
  have cat: "category db (o_type b) = (c, db)" using cache by (rule category_cached)
  from cache have "(o_type b, c) \<in> set (category_cache db)" by (rule map_of_SomeD)
  with wf have "nodes (client db) c \<noteq> None" by (auto simp: wf_db_def)
  then obtain cp where cp: "nodes (client db) c = Some cp" by auto
  let ?n = "next_node (client db)"
  let ?r = "\<lparr>rel_id = next_rel (client db), rel_start = c, rel_type = upper (o_type b),
             rel_end = ?n\<rparr>"
  let ?s2 = "(client db)\<lparr>nodes := (nodes (client db))(?n \<mapsto> properties b),
               rels := rels (client db) @ [?r], next_node := Suc ?n,
               next_rel := Suc (next_rel (client db))\<rparr>"
  have sc: "store_create (client db) (properties b) c (upper (o_type b)) = Inr ((?n, ?r), ?s2)"
    using cp by (simp add: store_create_def Let_def)
  from ex have ex2: "list_ex (entry_for k v) (indexes ?s2 (cname (o_class b)))" by simp
  from update_index_conflict [OF decl kv ex2, of ?n]
  obtain s3 where u: "update_index (o_class b) ?n (properties b) ?s2 = (Inl NotUnique, s3)"
    by (cases "update_index (o_class b) ?n (properties b) ?s2") simp
  from update_index_frame [OF u]
  have fr: "nodes s3 = nodes ?s2" "rels s3 = rels ?s2" by simp_all
  have old: "\<forall>r \<in> set (rels (client db)).
               rel_id r \<noteq> next_rel (client db) \<and> rel_start r \<noteq> ?n \<and> rel_end r \<noteq> ?n"
    using wf by (auto simp: wf_db_def)
  have f1: "filter (\<lambda>r. rel_start r = ?n \<or> rel_end r = ?n) (rels (client db)) = []"
    using old by (auto simp: filter_empty_conv)
  have f2: "filter (\<lambda>r. rel_id r \<noteq> next_rel (client db)) (rels (client db)) = rels (client db)"
    using old by (auto simp: filter_id_conv)
  have gr: "get_relationships s3 ?n = Inr [?r]"
    using f1 by (simp add: get_relationships_def fr)
  have fresh: "nodes (client db) ?n = None" using wf by (simp add: wf_db_def)
  let ?db2 = "db\<lparr>client := store_delete s3 [?r] ?n\<rparr>"
  have unset: "b\<lparr>o_node := None\<rparr> = b" using tr by (cases b) simp
  have dl: "NeoNode_delete (b\<lparr>o_node := Some ?n\<rparr>) (db\<lparr>client := s3\<rparr>) = (Inr True, b, ?db2)"
    using gr unset by (simp add: NeoNode_delete_def)
  have sv: "NeoNode_save b db = (Inl NotUnique, b, ?db2)"
    using tr cat sc u dl by (simp add: NeoNode_save_def NeoNode_create_def Let_def)
  have n2: "nodes (client ?db2) = nodes (client db)"
    using fresh by (simp add: store_delete_def fr fun_upd_idem)
  have r2: "rels (client ?db2) = rels (client db)"
    using f2 by (simp add: store_delete_def fr)
  from sv n2 r2 show ?thesis by (intro exI [of _ ?db2] conjI)
qed

text \<open>
  Claim C1. Two transient objects \<open>a\<close> and \<open>b\<close> of one class carry the same value
  \<open>v\<close> for a property \<open>k\<close> declared with \<^verbatim>\<open>unique_index\<close>. The store is one that hands
  out fresh identities (\<open>wf_db\<close>), the class is not called \<^verbatim>\<open>Category\<close> (its index would
  be the index of the category nodes), the properties of both objects are descriptors
  of the class, and the index holds no entry yet for the uniquely indexed values of
  \<open>a\<close>. Then saving \<open>a\<close> succeeds and gives it a node; saving \<open>b\<close> afterwards fails with
  \<^verbatim>\<open>NotUnique\<close>, leaves \<^verbatim>\<open>_node\<close> of \<open>b\<close> unset, and leaves the store with the nodes and
  relationships it had before the second save: the node just created and its category
  edge have been deleted.
\<close>

theorem second_unique_save_rolls_back:
  assumes "wf_db db" and "cname (o_class a) \<noteq> ''Category''"
    and "o_class b = o_class a" and "o_node a = None" and "o_node b = None"
    and "distinct (map fst (o_dict a))"
    and "all_declared (o_class a) (properties a)" and "all_declared (o_class a) (properties b)"
    and "unique_key (o_class a) k"
    and "(k, v) \<in> set (properties a)" and "(k, v) \<in> set (properties b)"
    and "no_conflict (o_class a) (properties a) (indexes (client db) (cname (o_class a)))"
  shows "\<exists>n db1 db2.
           NeoNode_save a db = (Inr (), a\<lparr>o_node := Some n\<rparr>, db1)
           \<and> NeoNode_save b db1 = (Inl NotUnique, b, db2)
           \<and> o_node b = None
           \<and> nodes (client db2) = nodes (client db1)
           \<and> rels (client db2) = rels (client db1)"
proof -
  have dist: "distinct (map fst (properties a))"
    using assms(6) by (simp add: properties_def properties_of_distinct)
  from save_transient_ok [OF assms(1,4,2,7) dist assms(12)] obtain n db1 where
    s1: "NeoNode_save a db = (Inr (), a\<lparr>o_node := Some n\<rparr>, db1)" and wf1: "wf_db db1"
    and cache: "map_of (category_cache db1) (o_type a) \<noteq> None"
    and post: "\<forall>k v. (k, v) \<in> set (properties a) \<and> unique_key (o_class a) k \<longrightarrow>
                 list_ex (entry_for k v) (indexes (client db1) (cname (o_class a)))"
    by (elim exE conjE)
  have t: "o_type b = o_type a" using assms(3) by (simp add: o_type_def)
  from cache t obtain c where c: "map_of (category_cache db1) (o_type b) = Some c" by auto
  from post assms(9,10) have "list_ex (entry_for k v) (indexes (client db1) (cname (o_class a)))"
    by simp
  then have ex: "list_ex (entry_for k v) (indexes (client db1) (cname (o_class b)))"
    using assms(3) by simp
  have decl: "all_declared (o_class b) (properties b)" using assms(3,8) by simp
  have uk: "unique_key (o_class b) k" using assms(3,9) by simp
  from save_transient_conflict [OF wf1 assms(5) c decl assms(11) uk ex] obtain db2 where
    s2: "NeoNode_save b db1 = (Inl NotUnique, b, db2)"
    and n2: "nodes (client db2) = nodes (client db1)"
    and r2: "rels (client db2) = rels (client db1)"
    by (elim exE conjE)
  from s1 s2 assms(5) n2 r2 show ?thesis
    by (intro exI [of _ n] exI [of _ db1] exI [of _ db2] conjI)
qed

lemma save_jim: "NeoNode_save jim empty_db = (Inr (), jim\<lparr>o_node := Some 1\<rparr>, db_after_jim)"
  by (simp add: NeoNode_save_def NeoNode_create_def category_def index_get_or_create_def
      store_create_def update_index_def get_property_def getattr_def Person_def person_def
      jim_def empty_db_def db_after_jim_def properties_def startswith_underscore_def o_type_def
      entry_for_def upper_def upper_char_def Let_def)

lemma save_jim2:
  "NeoNode_save jim2 db_after_jim =
     (Inl NotUnique, jim2,
      db_after_jim\<lparr>client := (client db_after_jim)
         \<lparr>indexes := (indexes (client db_after_jim))
             (''Person'' := [(''name'', PyStr ''Jim'', 1), (''age'', PyInt 30, 2)]),
          next_node := 3, next_rel := 2\<rparr>\<rparr>)"
  by (simp add: NeoNode_save_def NeoNode_create_def NeoNode_delete_def category_def
      store_create_def update_index_def get_property_def getattr_def Person_def
      get_relationships_def store_delete_def
      jim2_def db_after_jim_def properties_def startswith_underscore_def o_type_def
      entry_for_def upper_def upper_char_def Let_def)

lemma fixtures_ok:
  "wf_db empty_db" "cname (o_class jim) \<noteq> ''Category''" "o_class jim2 = o_class jim"
  "o_node jim = None" "o_node jim2 = None" "distinct (map fst (o_dict jim))"
  "all_declared (o_class jim) (properties jim)" "all_declared (o_class jim) (properties jim2)"
  "unique_key (o_class jim) ''name''"
  "(''name'', PyStr ''Jim'') \<in> set (properties jim)"
  "(''name'', PyStr ''Jim'') \<in> set (properties jim2)"
  "no_conflict (o_class jim) (properties jim) (indexes (client empty_db) (cname (o_class jim)))"
  by (simp_all add: wf_db_def empty_db_def jim_def jim2_def person_def Person_def
      all_declared_def unique_key_def no_conflict_def getattr_def properties_def
      startswith_underscore_def)

theorem second_unique_save_rolls_back_witness:
  "wf_db empty_db \<and> unique_key (o_class jim) ''name''
   \<and> (''name'', PyStr ''Jim'') \<in> set (properties jim)
   \<and> (''name'', PyStr ''Jim'') \<in> set (properties jim2)
   \<and> NeoNode_save jim empty_db = (Inr (), jim\<lparr>o_node := Some 1\<rparr>, db_after_jim)
   \<and> fst (NeoNode_save jim2 db_after_jim) = Inl NotUnique
   \<and> fst (snd (NeoNode_save jim2 db_after_jim)) = jim2 \<and> o_node jim2 = None
   \<and> nodes (client (snd (snd (NeoNode_save jim2 db_after_jim)))) = nodes (client db_after_jim)
   \<and> rels (client (snd (snd (NeoNode_save jim2 db_after_jim)))) = rels (client db_after_jim)"
  using second_unique_save_rolls_back [OF fixtures_ok] save_jim save_jim2 fixtures_ok
  by auto

end
